theory Spec2Isabelle
  imports Main "HOL-Library.AList"
begin

section \<open>Exceptions\<close>

text \<open>
  The exception classes of \<^verbatim>\<open>api/models.py\<close> and the built-in ones its handlers
  name or let through. \<open>IOError\<close> and \<open>OSError\<close> are distinct classes in Python 2 (the
  source's \<^verbatim>\<open>except X, err\<close> syntax); an \<open>OSError\<close> carries the name of its errno.
  \<open>ValueError\<close> and \<open>AttributeError\<close> are what \<open>plistlib\<close> raises on well-formed XML
  that is no property list; \<open>OtherError\<close> stands for every other class no handler of
  the source names.
\<close>

datatype exn =
    IOError string
  | OSError string
  | ExpatError string
  | UnboundLocalError string
  | UnicodeDecodeError string
  | ValueError string
  | AttributeError string
  | OtherError string
  | PlistReadError exn
  | PlistWriteError exn
  | PlistDeleteError exn
  | PlistDoesNotExistError "string option"
  | PlistAlreadyExistsError string

fun is_IOError :: "exn \<Rightarrow> bool" where
  "is_IOError (IOError m) = True"
| "is_IOError e = False"

fun is_OSError :: "exn \<Rightarrow> bool" where
  "is_OSError (OSError m) = True"
| "is_OSError e = False"

fun is_ExpatError :: "exn \<Rightarrow> bool" where
  "is_ExpatError (ExpatError m) = True"
| "is_ExpatError e = False"

text \<open>The typed errors of the module: the subclasses of \<open>PlistError\<close>.\<close>

fun is_PlistError :: "exn \<Rightarrow> bool" where
  "is_PlistError (PlistReadError e) = True"
| "is_PlistError (PlistWriteError e) = True"
| "is_PlistError (PlistDeleteError e) = True"
| "is_PlistError (PlistDoesNotExistError m) = True"
| "is_PlistError (PlistAlreadyExistsError m) = True"
| "is_PlistError e = False"

text \<open>\<open>str(err)\<close>, as the \<open>%s\<close> of a log message renders it.\<close>

fun str_exn :: "exn \<Rightarrow> string" where
  "str_exn (IOError m) = m"
| "str_exn (OSError m) = m"
| "str_exn (ExpatError m) = m"
| "str_exn (UnboundLocalError m) = m"
| "str_exn (UnicodeDecodeError m) = m"
| "str_exn (ValueError m) = m"
| "str_exn (AttributeError m) = m"
| "str_exn (OtherError m) = m"
| "str_exn (PlistReadError e) = str_exn e"
| "str_exn (PlistWriteError e) = str_exn e"
| "str_exn (PlistDeleteError e) = str_exn e"
| "str_exn (PlistDoesNotExistError m) = (case m of None \<Rightarrow> [] | Some s \<Rightarrow> s)"
| "str_exn (PlistAlreadyExistsError m) = m"

section \<open>Strings and paths\<close>

definition startswith :: "string \<Rightarrow> string \<Rightarrow> bool" where
  "startswith s p = (take (length p) s = p)"

definition endswith :: "string \<Rightarrow> string \<Rightarrow> bool" where
  "endswith s p = (length p \<le> length s \<and> drop (length s - length p) s = p)"

definition lstrip :: "char \<Rightarrow> string \<Rightarrow> string" where
  "lstrip c s = dropWhile (\<lambda>x. x = c) s"

definition rstrip :: "char \<Rightarrow> string \<Rightarrow> string" where
  "rstrip c s = rev (dropWhile (\<lambda>x. x = c) (rev s))"

text \<open>
  \<open>s.rfind(c)\<close>: the last index of \<open>c\<close>, or \<open>-1\<close>. The scan keeps the index \<open>i\<close>
  of the next character and the last index \<open>r\<close> found so far.
\<close>

fun rfind_from :: "string \<Rightarrow> char \<Rightarrow> int \<Rightarrow> int \<Rightarrow> int" where
  "rfind_from [] c i r = r"
| "rfind_from (x # xs) c i r = rfind_from xs c (i + 1) (if x = c then i else r)"

definition rfind :: "string \<Rightarrow> char \<Rightarrow> int" where
  "rfind s c = rfind_from s c 0 (-1)"

text \<open>
  \<open>posixpath.join\<close> of two components:
  \<^verbatim>\<open>
    if b.startswith('/'):                  path = b
    elif path == '' or path.endswith('/'):  path += b
    else:                                   path += '/' + b
  \<close>
\<close>

definition os_path_join :: "string \<Rightarrow> string \<Rightarrow> string" where
  "os_path_join a b =
     (if startswith b ''/'' then b
      else if a = [] \<or> endswith a ''/'' then a @ b
      else a @ ''/'' @ b)"

text \<open>
  \<open>posixpath.split\<close>:
  \<^verbatim>\<open>
    i = p.rfind('/') + 1
    head, tail = p[:i], p[i:]
    if head and head != '/'*len(head):
        head = head.rstrip('/')
    return head, tail
  \<close>
  and \<open>posixpath.dirname\<close>, its first component.
\<close>

definition os_path_split :: "string \<Rightarrow> string \<times> string" where
  "os_path_split p =
     (let i = nat (rfind p CHR ''/'' + 1);
          head = take i p;
          tail = drop i p
      in (if head \<noteq> [] \<and> head \<noteq> replicate (length head) CHR ''/''
          then rstrip CHR ''/'' head else head, tail))"

definition os_path_dirname :: "string \<Rightarrow> string" where
  "os_path_dirname p = fst (os_path_split p)"

text \<open>\<open>s.split(c)\<close>: the pieces between the occurrences of \<open>c\<close>; never empty.\<close>

fun split_on :: "char \<Rightarrow> string \<Rightarrow> string list" where
  "split_on c [] = [[]]"
| "split_on c (x # xs) =
     (if x = c then [] # split_on c xs
      else (case split_on c xs of
              [] \<Rightarrow> [[x]]
            | s # ss \<Rightarrow> (x # s) # ss))"

section \<open>The file system\<close>

text \<open>
  The repository lives in a tree of directories and files (no symbolic links, no
  permissions); a directory is an association list from entry names to nodes, in the
  order \<open>os.listdir\<close> returns them. A canonical path is the list of names from the root.
\<close>

datatype node = File string | Dir "(string \<times> node) list"

fun lookup :: "node \<Rightarrow> string list \<Rightarrow> node option" where
  "lookup t [] = Some t"
| "lookup (File d) (s # ss) = None"
| "lookup (Dir es) (s # ss) =
     (case map_of es s of None \<Rightarrow> None | Some ch \<Rightarrow> lookup ch ss)"

definition is_dir :: "node \<Rightarrow> string list \<Rightarrow> bool" where
  "is_dir t c = (case lookup t c of Some (Dir es) \<Rightarrow> True | _ \<Rightarrow> False)"

text \<open>
  \<open>put t c n\<close> binds the canonical path \<open>c\<close> to the node \<open>n\<close>: the parent of \<open>c\<close>
  must be a directory of \<open>t\<close>; an entry of that name is replaced, a new one is added.
\<close>

fun put :: "node \<Rightarrow> string list \<Rightarrow> node \<Rightarrow> node option" where
  "put t [] n = Some n"
| "put (File d) (s # ss) n = None"
| "put (Dir es) (s # ss) n =
     (case map_of es s of
        None \<Rightarrow> if ss = [] then Some (Dir (AList.update s n es)) else None
      | Some ch \<Rightarrow>
          (case put ch ss n of
             None \<Rightarrow> None
           | Some ch' \<Rightarrow> Some (Dir (AList.update s ch' es))))"

text \<open>\<open>remove t c\<close> takes the entry at the canonical path \<open>c\<close> out of its directory.\<close>

fun remove :: "node \<Rightarrow> string list \<Rightarrow> node" where
  "remove t [] = t"
| "remove (File d) (s # ss) = File d"
| "remove (Dir es) (s # ss) =
     (if ss = [] then Dir (AList.delete s es)
      else (case map_of es s of
              None \<Rightarrow> Dir es
            | Some ch \<Rightarrow> Dir (AList.update s (remove ch ss) es)))"

text \<open>
  Path resolution, as the kernel does it for every system call: the components of the
  path string are walked from the root (the working directory of the process is taken
  to be the root); an empty component and \<open>.\<close> stay, \<open>..\<close> goes to the parent, a name
  goes to that entry, and every component but the last is looked up in a directory. The
  result is the canonical path the string names, whether or not its last entry exists.
  The empty string names nothing.
\<close>

fun resolve :: "node \<Rightarrow> string list \<Rightarrow> string list \<Rightarrow> string list option" where
  "resolve t cur [] = Some cur"
| "resolve t cur (s # ss) =
     (if \<not> is_dir t cur then None
      else if s = [] \<or> s = ''.'' then resolve t cur ss
      else if s = ''..'' then resolve t (butlast cur) ss
      else resolve t (cur @ [s]) ss)"

definition namei :: "node \<Rightarrow> string \<Rightarrow> string list option" where
  "namei t p = (if p = [] then None else resolve t [] (split_on CHR ''/'' p))"

text \<open>
  The errno of a resolution that fails: \<open>ENOTDIR\<close> when a component that must be a
  directory is a regular file, \<open>ENOENT\<close> when it is not there (or the path is empty).
\<close>

fun resolve_errno :: "node \<Rightarrow> string list \<Rightarrow> string list \<Rightarrow> string" where
  "resolve_errno t cur [] = ''ENOENT''"
| "resolve_errno t cur (s # ss) =
     (if \<not> is_dir t cur
      then (case lookup t cur of None \<Rightarrow> ''ENOENT'' | Some n \<Rightarrow> ''ENOTDIR'')
      else if s = [] \<or> s = ''.'' then resolve_errno t cur ss
      else if s = ''..'' then resolve_errno t (butlast cur) ss
      else resolve_errno t (cur @ [s]) ss)"

definition namei_errno :: "node \<Rightarrow> string \<Rightarrow> string" where
  "namei_errno t p =
     (if p = [] then ''ENOENT'' else resolve_errno t [] (split_on CHR ''/'' p))"

text \<open>
  Creating a file through a path with a trailing separator whose last name is not
  there is refused with \<open>EISDIR\<close>.
\<close>

definition open_errno :: "node \<Rightarrow> string \<Rightarrow> string" where
  "open_errno t p =
     (case namei t (rstrip CHR ''/'' p) of
        None \<Rightarrow> namei_errno t p
      | Some c \<Rightarrow> (case lookup t c of None \<Rightarrow> ''EISDIR'' | Some n \<Rightarrow> namei_errno t p))"

text \<open>\<open>os.path.exists\<close>: the path resolves and its last entry is there.\<close>

definition os_path_exists :: "node \<Rightarrow> string \<Rightarrow> bool" where
  "os_path_exists t p =
     (case namei t p of None \<Rightarrow> False | Some c \<Rightarrow> lookup t c \<noteq> None)"

text \<open>
  \<open>os.mkdir\<close>: the directory must not exist and its parent must; trailing
  separators are ignored.
\<close>

definition os_mkdir :: "node \<Rightarrow> string \<Rightarrow> (exn + unit) \<times> node" where
  "os_mkdir t name =
     (let p = (if rstrip CHR ''/'' name = [] then name else rstrip CHR ''/'' name)
      in case namei t p of
           None \<Rightarrow> (Inl (OSError (namei_errno t p)), t)
         | Some c \<Rightarrow>
             (case lookup t c of
                Some n \<Rightarrow> (Inl (OSError ''EEXIST''), t)
              | None \<Rightarrow>
                  (case put t c (Dir []) of
                     None \<Rightarrow> (Inl (OSError ''ENOENT''), t)
                   | Some t' \<Rightarrow> (Inr (), t'))))"

text \<open>
  \<open>os.makedirs\<close> of Python 2.7:
  \<^verbatim>\<open>
    head, tail = path.split(name)
    if not tail:
        head, tail = path.split(head)
    if head and tail and not path.exists(head):
        try:
            makedirs(head, mode)
        except OSError, e:
            if e.errno != errno.EEXIST:
                raise
        if tail == curdir:
            return
    mkdir(name, mode)
  \<close>
  Directories made before a later step fails stay.
\<close>

definition makedirs_split :: "string \<Rightarrow> string \<times> string" where
  "makedirs_split name =
     (let (head, tail) = os_path_split name
      in if tail = [] then os_path_split head else (head, tail))"

lemma length_rstrip_le: "length (rstrip c s) \<le> length s"
  unfolding rstrip_def using length_dropWhile_le [of _ "rev s"] by simp

lemma length_os_path_split:
  "length (fst (os_path_split p)) + length (snd (os_path_split p)) \<le> length p"
proof -
  let ?i = "nat (rfind p CHR ''/'' + 1)"
  have "length (rstrip CHR ''/'' (take ?i p)) \<le> length (take ?i p)"
    by (rule length_rstrip_le)
  then have "length (fst (os_path_split p)) \<le> length (take ?i p)"
    by (simp add: os_path_split_def Let_def)
  moreover have "length (snd (os_path_split p)) = length (drop ?i p)"
    by (simp add: os_path_split_def Let_def)
  ultimately show ?thesis by (simp del: length_take) (simp add: min_def split: if_splits)
qed

lemma length_makedirs_split:
  "length (fst (makedirs_split p)) + length (snd (makedirs_split p)) \<le> length p"
proof (cases "snd (os_path_split p) = []")
  case True
  then have "makedirs_split p = os_path_split (fst (os_path_split p))"
    by (simp add: makedirs_split_def split_beta)
  then show ?thesis
    using length_os_path_split [of "fst (os_path_split p)"] length_os_path_split [of p]
    by simp
next
  case False
  then have "makedirs_split p = os_path_split p"
    by (simp add: makedirs_split_def split_beta)
  then show ?thesis using length_os_path_split [of p] by simp
qed

function makedirs :: "node \<Rightarrow> string \<Rightarrow> (exn + unit) \<times> node" where
  "makedirs t name =
     (if fst (makedirs_split name) \<noteq> [] \<and> snd (makedirs_split name) \<noteq> []
         \<and> \<not> os_path_exists t (fst (makedirs_split name))
      then (case makedirs t (fst (makedirs_split name)) of
              (Inl e, t1) \<Rightarrow>
                if is_OSError e \<and> e \<noteq> OSError ''EEXIST'' then (Inl e, t1)
                else if \<not> is_OSError e then (Inl e, t1)
                else if snd (makedirs_split name) = ''.'' then (Inr (), t1)
                else os_mkdir t1 name
            | (Inr u, t1) \<Rightarrow>
                if snd (makedirs_split name) = ''.'' then (Inr (), t1)
                else os_mkdir t1 name)
      else os_mkdir t name)"
  by pat_completeness auto
termination
proof (relation "measure (\<lambda>(t, name). length name)")
  show "wf (measure (\<lambda>(t, name). length name))" by simp
next
  fix t :: node and name :: string
  assume "fst (makedirs_split name) \<noteq> [] \<and> snd (makedirs_split name) \<noteq> []
     \<and> \<not> os_path_exists t (fst (makedirs_split name))"
  then have "length (snd (makedirs_split name)) \<noteq> 0" by simp
  with length_makedirs_split [of name]
  have "length (fst (makedirs_split name)) < length name" by linarith
  then show "((t, fst (makedirs_split name)), (t, name)) \<in> measure (\<lambda>(t, name). length name)"
    by simp
qed

declare makedirs.simps [simp del]

text \<open>
  \<open>os.walk(top)\<close>, top down: \<open>listdir(top)\<close> failing ends the walk silently; otherwise
  the triple \<open>(top, dirs, nondirs)\<close> is yielded, the consumer may edit \<open>dirs\<close> in place
  (the function \<open>prune\<close>), and the walk goes on into each name that is left, with
  \<open>join(top, name)\<close> as the new top.
\<close>

fun is_Dir :: "node \<Rightarrow> bool" where
  "is_Dir (Dir es) = True"
| "is_Dir (File d) = False"

definition dirs_of :: "(string \<times> node) list \<Rightarrow> string list" where
  "dirs_of es = map fst (filter (\<lambda>e. is_Dir (snd e)) es)"

definition nondirs_of :: "(string \<times> node) list \<Rightarrow> string list" where
  "nondirs_of es = map fst (filter (\<lambda>e. \<not> is_Dir (snd e)) es)"

lemma size_map_of:
  "map_of es k = Some ch \<Longrightarrow> size ch < Suc (size_list (size_prod (\<lambda>x. 0) size) es)"
  by (induction es) (auto split: if_splits)

function os_walk ::
  "(string list \<Rightarrow> string list) \<Rightarrow> string \<Rightarrow> node \<Rightarrow> (string \<times> string list \<times> string list) list"
where
  "os_walk prune dirpath (File d) = []"
| "os_walk prune dirpath (Dir es) =
     (dirpath, dirs_of es, nondirs_of es) #
     concat (map (\<lambda>name. case map_of es name of
                            None \<Rightarrow> []
                          | Some ch \<Rightarrow> os_walk prune (os_path_join dirpath name) ch)
                 (prune (dirs_of es)))"
  by pat_completeness auto
termination
  by (relation "measure (\<lambda>(prune, dirpath, t). size t)") (auto dest: size_map_of)

section \<open>Records, the world and its parameters\<close>

text \<open>
  A plist value, and a record: the dict \<open>plistlib\<close> reads and writes, as an
  association list (\<open>{}\<close> is \<open>[]\<close>, \<open>d[k] = v\<close> is \<open>AList.update k v d\<close>).
\<close>

datatype pvalue =
    PString string
  | PInteger int
  | PBool bool
  | PArray "pvalue list"
  | PDict "(string \<times> pvalue) list"

type_synonym plist = "(string \<times> pvalue) list"

datatype level = INFO | ERROR

datatype vcs_event =
    RecordAdd string "string option"
  | RecordDelete string "string option"

text \<open>
  What an operation can change: the file tree, the lines the logger \<open>LOGGER\<close> has
  received, and the events the version-control recorder has recorded.
\<close>

record world =
  fs :: node
  logged :: "(level \<times> string) list"
  vcs :: "vcs_event list"

text \<open>
  The calls that leave the process. Any of them can fail for a reason the file tree does
  not show (permissions, a full disk, a missing \<open>git\<close> binary): \<open>faults\<close> says which
  call at which path raises what; where it says nothing the call does what the tree
  allows. A call raises the class Python 2 gives it and no other: the functions of
  \<open>os\<close> (\<open>makedirs\<close>, \<open>unlink\<close>) raise \<open>OSError\<close>, opening, reading and writing a file
  raise \<open>IOError\<close>, and a fault of another class planned for such a call does not
  happen. The calls of the recorder raise whatever is planned for them.
\<close>

datatype syscall =
    Makedirs string
  | OpenW string
  | FileWrite string
  | OpenR string
  | Unlink string
  | GitAdd string
  | GitDelete string

text \<open>
  The parameters of the module: the settings \<open>REPO_DIR\<close> (\<open>settings.MUNKI_REPO_DIR\<close>)
  and \<open>GIT\<close> (\<open>settings.GIT_PATH\<close>, or \<open>None\<close>), the codec of \<open>plistlib\<close>
  (\<open>writePlistToString\<close>, and the parser \<open>readPlist\<close> runs on the bytes of a file, which
  returns the record or raises), and the faults of the environment.
\<close>

record env =
  REPO_DIR :: string
  GIT :: "string option"
  writePlistToString :: "plist \<Rightarrow> string"
  parsePlist :: "string \<Rightarrow> exn + plist"
  faults :: "syscall \<Rightarrow> exn option"

definition LOGGER_info :: "string \<Rightarrow> world \<Rightarrow> world" where
  "LOGGER_info msg w = w\<lparr>logged := logged w @ [(INFO, msg)]\<rparr>"

definition LOGGER_error :: "string \<Rightarrow> world \<Rightarrow> world" where
  "LOGGER_error msg w = w\<lparr>logged := logged w @ [(ERROR, msg)]\<rparr>"

fun os_fault :: "exn option \<Rightarrow> exn option" where
  "os_fault (Some (OSError m)) = Some (OSError m)"
| "os_fault f = None"

fun io_fault :: "exn option \<Rightarrow> exn option" where
  "io_fault (Some (IOError m)) = Some (IOError m)"
| "io_fault f = None"

text \<open>Python's truth value of \<open>user\<close>, \<open>GIT\<close> and \<open>plist_data\<close>.\<close>

fun truthy :: "'a list option \<Rightarrow> bool" where
  "truthy None = False"
| "truthy (Some []) = False"
| "truthy (Some (x # xs)) = True"

section \<open>The calls of the module\<close>

definition os_makedirs :: "env \<Rightarrow> world \<Rightarrow> string \<Rightarrow> (exn + unit) \<times> world" where
  "os_makedirs E w p =
     (case os_fault (faults E (Makedirs p)) of
        Some e \<Rightarrow> (Inl e, w)
      | None \<Rightarrow> (case makedirs (fs w) p of (r, t') \<Rightarrow> (r, w\<lparr>fs := t'\<rparr>)))"

text \<open>
  \<open>open(filepath, 'w')\<close>: the file is created, or emptied if it is there; the handle is
  the canonical path of the file. A directory cannot be opened for writing.
\<close>

definition open_w :: "env \<Rightarrow> world \<Rightarrow> string \<Rightarrow> (exn + string list) \<times> world" where
  "open_w E w p =
     (case io_fault (faults E (OpenW p)) of
        Some e \<Rightarrow> (Inl e, w)
      | None \<Rightarrow>
          (case namei (fs w) p of
             None \<Rightarrow> (Inl (IOError (open_errno (fs w) p)), w)
           | Some c \<Rightarrow>
               if is_dir (fs w) c then (Inl (IOError ''EISDIR''), w)
               else (case put (fs w) c (File []) of
                       None \<Rightarrow> (Inl (IOError ''ENOENT''), w)
                     | Some t' \<Rightarrow> (Inr c, w\<lparr>fs := t'\<rparr>))))"

text \<open>\<open>fileref.write(bytes)\<close> and the close at the end of the \<open>with\<close> block.\<close>

definition file_write ::
  "env \<Rightarrow> world \<Rightarrow> string \<Rightarrow> string list \<Rightarrow> string \<Rightarrow> (exn + unit) \<times> world" where
  "file_write E w p c bytes =
     (case io_fault (faults E (FileWrite p)) of
        Some e \<Rightarrow> (Inl e, w)
      | None \<Rightarrow>
          (case put (fs w) c (File bytes) of
             None \<Rightarrow> (Inl (IOError ''EBADF''), w)
           | Some t' \<Rightarrow> (Inr (), w\<lparr>fs := t'\<rparr>)))"

text \<open>
  \<open>data.encode('utf-8')\<close> on a Python 2 byte string decodes it as ASCII first: bytes
  beyond ASCII raise \<open>UnicodeDecodeError\<close>, ASCII bytes come back as they are.
\<close>

definition encode_utf8 :: "string \<Rightarrow> exn + string" where
  "encode_utf8 data =
     (if list_all (\<lambda>c. of_char c < (128::nat)) data then Inr data
      else Inl (UnicodeDecodeError ''ascii codec can't decode byte''))"

text \<open>\<open>plistlib.readPlist(filepath)\<close>: open the file for reading, parse its bytes.\<close>

definition plistlib_readPlist :: "env \<Rightarrow> world \<Rightarrow> string \<Rightarrow> exn + plist" where
  "plistlib_readPlist E w p =
     (case io_fault (faults E (OpenR p)) of
        Some e \<Rightarrow> Inl e
      | None \<Rightarrow>
          (case namei (fs w) p of
             None \<Rightarrow> Inl (IOError (namei_errno (fs w) p))
           | Some c \<Rightarrow>
               (case lookup (fs w) c of
                  None \<Rightarrow> Inl (IOError ''ENOENT'')
                | Some (Dir es) \<Rightarrow> Inl (IOError ''EISDIR'')
                | Some (File bytes) \<Rightarrow> parsePlist E bytes)))"

text \<open>\<open>os.unlink\<close>: removes a file, never a directory.\<close>

definition os_unlink :: "env \<Rightarrow> world \<Rightarrow> string \<Rightarrow> (exn + unit) \<times> world" where
  "os_unlink E w p =
     (case os_fault (faults E (Unlink p)) of
        Some e \<Rightarrow> (Inl e, w)
      | None \<Rightarrow>
          (case namei (fs w) p of
             None \<Rightarrow> (Inl (OSError (namei_errno (fs w) p)), w)
           | Some c \<Rightarrow>
               (case lookup (fs w) c of
                  None \<Rightarrow> (Inl (OSError ''ENOENT''), w)
                | Some (Dir es) \<Rightarrow> (Inl (OSError ''EISDIR''), w)
                | Some (File bytes) \<Rightarrow> (Inr (), w\<lparr>fs := remove (fs w) c\<rparr>))))"

text \<open>\<open>os.walk\<close> on a path string: a top that does not name a directory yields nothing.\<close>

definition os_walk_path ::
  "world \<Rightarrow> (string list \<Rightarrow> string list) \<Rightarrow> string \<Rightarrow> (string \<times> string list \<times> string list) list"
where
  "os_walk_path w prune top_path =
     (case namei (fs w) top_path of
        None \<Rightarrow> []
      | Some c \<Rightarrow>
          (case lookup (fs w) c of
             None \<Rightarrow> []
           | Some t \<Rightarrow> os_walk prune top_path t))"

text \<open>
  Modelled from the spec: the version-control recorder \<open>MunkiGit\<close> of
  \<open>munkiwebadmin.utils\<close>, which the module imports and whose code is not part of the
  sources at hand. The spec gives its contract: \<open>recordAdd(filePath, user)\<close> and
  \<open>recordDelete(filePath, user)\<close> durably record the event for the path, attributed to
  the user; whether a call fails, and with which exception, is the environment's.
\<close>

definition MunkiGit_add_file_at_path ::
  "env \<Rightarrow> world \<Rightarrow> string \<Rightarrow> string option \<Rightarrow> (exn + unit) \<times> world" where
  "MunkiGit_add_file_at_path E w filepath user =
     (case faults E (GitAdd filepath) of
        Some e \<Rightarrow> (Inl e, w)
      | None \<Rightarrow> (Inr (), w\<lparr>vcs := vcs w @ [RecordAdd filepath user]\<rparr>))"

definition MunkiGit_delete_file_at_path ::
  "env \<Rightarrow> world \<Rightarrow> string \<Rightarrow> string option \<Rightarrow> (exn + unit) \<times> world" where
  "MunkiGit_delete_file_at_path E w filepath user =
     (case faults E (GitDelete filepath) of
        Some e \<Rightarrow> (Inl e, w)
      | None \<Rightarrow> (Inr (), w\<lparr>vcs := vcs w @ [RecordDelete filepath user]\<rparr>))"

section \<open>The class \<open>Plist\<close>\<close>

subsection \<open>\<open>Plist.list\<close>\<close>

definition skipdirs :: "string list" where
  "skipdirs = [''.svn'', ''.git'', ''.AppleDouble'']"

text \<open>
  The first loop of the body, on the \<open>dirnames\<close> that \<open>os.walk\<close> goes on with:
  \<^verbatim>\<open>
    for skipdir in skipdirs:
        if skipdir in dirnames:
            dirnames.remove(skipdir)
  \<close>
\<close>

definition remove_skipdirs :: "string list \<Rightarrow> string list" where
  "remove_skipdirs dirnames =
     fold (\<lambda>skipdir ds. if skipdir \<in> set ds then remove1 skipdir ds else ds)
       skipdirs dirnames"

definition Plist_list :: "env \<Rightarrow> world \<Rightarrow> string \<Rightarrow> string list" where
  "Plist_list E w kind =
     (let kind_dir = os_path_join (REPO_DIR E) kind
      in concat
           (map (\<lambda>(dirpath, dirnames, filenames).
                   let subdir = drop (length kind_dir) dirpath
                   in map (\<lambda>name. lstrip CHR ''/'' (os_path_join subdir name))
                        (filter (\<lambda>name. \<not> startswith name ''.'') filenames))
              (os_walk_path w remove_skipdirs kind_dir)))"

subsection \<open>\<open>Plist.new\<close>\<close>

text \<open>
  The record \<open>new\<close> makes up when it is given none; \<open>None\<close> is the local variable
  \<open>plist\<close> left unbound, when \<open>kind\<close> is neither \<open>manifests\<close> nor \<open>pkgsinfo\<close>.
\<close>

definition default_plist :: "string \<Rightarrow> plist option" where
  "default_plist kind =
     (if kind = ''manifests''
      then Some (fold (\<lambda>section plist. AList.update section (PArray []) plist)
                   [''catalogs'', ''included_manifests'', ''managed_installs'',
                    ''managed_uninstalls'', ''managed_updates'', ''optional_installs'']
                   [])
      else if kind = ''pkgsinfo''
      then Some [(''name'', PString ''ProductName''),
                 (''display_name'', PString ''Display Name''),
                 (''description'', PString ''Product description''),
                 (''version'', PString ''1.0''),
                 (''catalogs'', PArray [PString ''development''])]
      else None)"

text \<open>The body of the \<open>try\<close> block of \<open>new\<close>.\<close>

definition new_try ::
  "env \<Rightarrow> world \<Rightarrow> string \<Rightarrow> string \<Rightarrow> string \<Rightarrow> string option \<Rightarrow> string
     \<Rightarrow> (exn + unit) \<times> world" where
  "new_try E w kind pathname filepath user data =
     (case open_w E w filepath of
        (Inl e, w1) \<Rightarrow> (Inl e, w1)
      | (Inr fileref, w1) \<Rightarrow>
          (case encode_utf8 data of
             Inl e \<Rightarrow> (Inl e, w1)
           | Inr bytes \<Rightarrow>
               (case file_write E w1 filepath fileref bytes of
                  (Inl e, w2) \<Rightarrow> (Inl e, w2)
                | (Inr u, w2) \<Rightarrow>
                    (let w3 = LOGGER_info (''Created '' @ kind @ ''/'' @ pathname) w2
                     in if truthy user \<and> truthy (GIT E)
                        then MunkiGit_add_file_at_path E w3 filepath user
                        else (Inr (), w3)))))"

definition Plist_new ::
  "env \<Rightarrow> world \<Rightarrow> string \<Rightarrow> string \<Rightarrow> string option \<Rightarrow> plist option
     \<Rightarrow> (exn + string) \<times> world" where
  "Plist_new E w kind pathname user plist_data =
     (let kind_dir = os_path_join (REPO_DIR E) kind;
          filepath = os_path_join kind_dir pathname
      in if os_path_exists (fs w) filepath
         then (Inl (PlistAlreadyExistsError (kind @ ''/'' @ pathname @ '' already exists!'')), w)
         else
           (let plist_parent_dir = os_path_dirname filepath
            in case (if os_path_exists (fs w) plist_parent_dir then (Inr (), w)
                     else os_makedirs E w plist_parent_dir) of
                 (Inl err, w1) \<Rightarrow>
                   if is_IOError err \<or> is_OSError err
                   then (Inl (PlistWriteError err),
                         LOGGER_error (''Create failed for '' @ kind @ ''/'' @ pathname
                                         @ '': '' @ str_exn err) w1)
                   else (Inl err, w1)
               | (Inr u, w1) \<Rightarrow>
                   (case (if truthy plist_data then plist_data else default_plist kind) of
                      None \<Rightarrow>
                        (Inl (UnboundLocalError
                                ''local variable 'plist' referenced before assignment''), w1)
                    | Some plist \<Rightarrow>
                        (let data = writePlistToString E plist
                         in case new_try E w1 kind pathname filepath user data of
                              (Inl err, w2) \<Rightarrow>
                                if is_IOError err \<or> is_OSError err
                                then (Inl (PlistWriteError err),
                                      LOGGER_error (''Create failed for '' @ kind @ ''/''
                                                      @ pathname @ '': '' @ str_exn err) w2)
                                else (Inl err, w2)
                            | (Inr u, w2) \<Rightarrow> (Inr data, w2)))))"

subsection \<open>\<open>Plist.read\<close>\<close>

text \<open>
  The first handler takes \<open>IOError\<close> and \<open>OSError\<close>; the second, \<open>ExpatError\<close> (and
  \<open>IOError\<close>, which never reaches it); any other exception leaves the function as it is.
\<close>

definition Plist_read :: "env \<Rightarrow> world \<Rightarrow> string \<Rightarrow> string \<Rightarrow> (exn + plist) \<times> world" where
  "Plist_read E w kind pathname =
     (let kind_dir = os_path_join (REPO_DIR E) kind;
          filepath = os_path_join kind_dir pathname
      in if \<not> os_path_exists (fs w) filepath
         then (Inl (PlistDoesNotExistError None), w)
         else (case plistlib_readPlist E w filepath of
                 Inr plistdata \<Rightarrow> (Inr plistdata, w)
               | Inl err \<Rightarrow>
                   if is_IOError err \<or> is_OSError err
                   then (Inl (PlistReadError err),
                         LOGGER_error (''Read failed for '' @ kind @ ''/'' @ pathname
                                         @ '': '' @ str_exn err) w)
                   else if is_ExpatError err \<or> is_IOError err
                   then (Inr [], w)
                   else (Inl err, w)))"

subsection \<open>\<open>Plist.write\<close>\<close>

text \<open>The body of the \<open>try\<close> block of \<open>write\<close>: the bytes go to the file as they are.\<close>

definition write_try ::
  "env \<Rightarrow> world \<Rightarrow> string \<Rightarrow> string \<Rightarrow> string \<Rightarrow> string option \<Rightarrow> string
     \<Rightarrow> (exn + unit) \<times> world" where
  "write_try E w kind pathname filepath user data =
     (case open_w E w filepath of
        (Inl e, w1) \<Rightarrow> (Inl e, w1)
      | (Inr fileref, w1) \<Rightarrow>
          (case file_write E w1 filepath fileref data of
             (Inl e, w2) \<Rightarrow> (Inl e, w2)
           | (Inr u, w2) \<Rightarrow>
               (let w3 = LOGGER_info (''Wrote '' @ kind @ ''/'' @ pathname) w2
                in if truthy user \<and> truthy (GIT E)
                   then MunkiGit_add_file_at_path E w3 filepath user
                   else (Inr (), w3))))"

text \<open>The handler of the directory creation names \<open>OSError\<close> alone here.\<close>

definition Plist_write ::
  "env \<Rightarrow> world \<Rightarrow> string \<Rightarrow> string \<Rightarrow> string \<Rightarrow> string option \<Rightarrow> (exn + unit) \<times> world" where
  "Plist_write E w data kind pathname user =
     (let kind_dir = os_path_join (REPO_DIR E) kind;
          filepath = os_path_join kind_dir pathname;
          plist_parent_dir = os_path_dirname filepath
      in case (if os_path_exists (fs w) plist_parent_dir then (Inr (), w)
               else os_makedirs E w plist_parent_dir) of
           (Inl err, w1) \<Rightarrow>
             if is_OSError err
             then (Inl (PlistWriteError err),
                   LOGGER_error (''Create failed for '' @ kind @ ''/'' @ pathname
                                   @ '': '' @ str_exn err) w1)
             else (Inl err, w1)
         | (Inr u, w1) \<Rightarrow>
             (case write_try E w1 kind pathname filepath user data of
                (Inl err, w2) \<Rightarrow>
                  if is_IOError err \<or> is_OSError err
                  then (Inl (PlistWriteError err),
                        LOGGER_error (''Write failed for '' @ kind @ ''/'' @ pathname
                                        @ '': '' @ str_exn err) w2)
                  else (Inl err, w2)
              | (Inr u, w2) \<Rightarrow> (Inr (), w2)))"

subsection \<open>\<open>Plist.delete\<close>\<close>

text \<open>The body of the \<open>try\<close> block of \<open>delete\<close>.\<close>

definition delete_try ::
  "env \<Rightarrow> world \<Rightarrow> string \<Rightarrow> string \<Rightarrow> string \<Rightarrow> string option \<Rightarrow> (exn + unit) \<times> world" where
  "delete_try E w kind pathname filepath user =
     (case os_unlink E w filepath of
        (Inl e, w1) \<Rightarrow> (Inl e, w1)
      | (Inr u, w1) \<Rightarrow>
          (let w2 = LOGGER_info (''Deleted '' @ kind @ ''/'' @ pathname) w1
           in if truthy user \<and> truthy (GIT E)
              then MunkiGit_delete_file_at_path E w2 filepath user
              else (Inr (), w2)))"

definition Plist_delete ::
  "env \<Rightarrow> world \<Rightarrow> string \<Rightarrow> string \<Rightarrow> string option \<Rightarrow> (exn + unit) \<times> world" where
  "Plist_delete E w kind pathname user =
     (let kind_dir = os_path_join (REPO_DIR E) kind;
          filepath = os_path_join kind_dir pathname
      in if \<not> os_path_exists (fs w) filepath
         then (Inl (PlistDoesNotExistError (Some (kind @ ''/'' @ pathname @ '' does not exist''))), w)
         else (case delete_try E w kind pathname filepath user of
                 (Inl err, w1) \<Rightarrow>
                   if is_IOError err \<or> is_OSError err
                   then (Inl (PlistDeleteError err),
                         LOGGER_error (''Delete failed for '' @ kind @ ''/'' @ pathname
                                         @ '': '' @ str_exn err) w1)
                   else (Inl err, w1)
               | (Inr u, w1) \<Rightarrow> (Inr (), w1)))"

section \<open>Well-formed trees\<close>

text \<open>
  What every real tree satisfies: an entry name is not empty, has no separator in it and
  is neither \<open>.\<close> nor \<open>..\<close>, and no directory has two entries of one name.
\<close>

definition valid_name :: "string \<Rightarrow> bool" where
  "valid_name name =
     (name \<noteq> [] \<and> CHR ''/'' \<notin> set name \<and> name \<noteq> ''.'' \<and> name \<noteq> ''..'')"

fun wf_node :: "node \<Rightarrow> bool" where
  "wf_node (File d) = True"
| "wf_node (Dir es) =
     (distinct (map fst es) \<and> list_all (\<lambda>e. valid_name (fst e) \<and> wf_node (snd e)) es)"

text \<open>The path string of a list of names: the names with separators between them.\<close>

fun joinp :: "string list \<Rightarrow> string" where
  "joinp [] = []"
| "joinp [s] = s"
| "joinp (s # t # ts) = s @ CHR ''/'' # joinp (t # ts)"

section \<open>A concrete repository\<close>

text \<open>
  The path every method computes in its first two lines:
  \<open>filepath = os.path.join(os.path.join(REPO_DIR, kind), pathname)\<close>.
\<close>

abbreviation filepath_of :: "env \<Rightarrow> string \<Rightarrow> string \<Rightarrow> string" where
  "filepath_of E kind pathname \<equiv> os_path_join (os_path_join (REPO_DIR E) kind) pathname"

text \<open>
  A small codec, environment and repository on which the theorems below are run: the
  serialiser writes keys and values as tagged text, the parser knows the two records
  \<open>new\<close> makes up and rejects everything else as ill-formed, no call fails for a reason
  outside the tree, and version control is configured.
\<close>

fun demo_value :: "pvalue \<Rightarrow> string" where
  "demo_value (PString s) = ''<string>'' @ s @ ''</string>''"
| "demo_value (PArray xs) = ''<array>'' @ concat (map demo_value xs) @ ''</array>''"
| "demo_value v = ''<other/>''"

definition demo_writePlistToString :: "plist \<Rightarrow> string" where
  "demo_writePlistToString m =
     concat (map (\<lambda>(k, v). ''<key>'' @ k @ ''</key>'' @ demo_value v) m)"

definition demo_parsePlist :: "string \<Rightarrow> exn + plist" where
  "demo_parsePlist s =
     (case filter (\<lambda>m. demo_writePlistToString m = s)
             (List.map_filter default_plist [''manifests'', ''pkgsinfo'']) of
        m # ms \<Rightarrow> Inr m
      | [] \<Rightarrow> Inl (ExpatError ''syntax error''))"

definition no_faults :: "syscall \<Rightarrow> exn option" where
  "no_faults call = None"

definition demo_env :: env where
  "demo_env = \<lparr>REPO_DIR = ''/repo'', GIT = Some ''/usr/bin/git'',
     writePlistToString = demo_writePlistToString, parsePlist = demo_parsePlist,
     faults = no_faults\<rparr>"

definition demo_world :: world where
  "demo_world =
     \<lparr>fs = Dir [(''repo'', Dir [(''manifests'',
               Dir [(''site_default'', File ''abc''),
                    (''.DS_Store'', File ''x''),
                    (''.git'', Dir [(''config'', File ''c'')]),
                    (''.hg'', Dir [(''store'', File ''s'')]),
                    (''sub'', Dir [(''m1'', File ''1'')])]),
             (''pkgsinfo'', Dir []),
             (''catalogs'', Dir [(''all'', File ''z'')])])],
      logged = [], vcs = []\<rparr>"

text \<open>The record \<open>new\<close> makes up for \<open>manifests\<close>.\<close>

definition demo_manifest :: plist where
  "demo_manifest =
     [(''catalogs'', PArray []), (''included_manifests'', PArray []),
      (''managed_installs'', PArray []), (''managed_uninstalls'', PArray []),
      (''managed_updates'', PArray []), (''optional_installs'', PArray [])]"

text \<open>The record \<open>new\<close> makes up for \<open>pkgsinfo\<close>, and its bytes under the small codec.\<close>

definition demo_pkginfo :: plist where
  "demo_pkginfo =
     [(''name'', PString ''ProductName''),
      (''display_name'', PString ''Display Name''),
      (''description'', PString ''Product description''),
      (''version'', PString ''1.0''),
      (''catalogs'', PArray [PString ''development''])]"

definition demo_data :: string where
  "demo_data = demo_writePlistToString demo_pkginfo"

text \<open>
  The parser of \<open>plistlib\<close> hands the text of an \<open>integer\<close> element to \<open>int()\<close>, which
  raises \<open>ValueError\<close> on text that is no number: such a file is well-formed XML and
  still no property list. The small environment with a parser that does so on these
  bytes, and a repository with a manifest that holds them.
\<close>

definition bad_integer :: string where
  "bad_integer = ''<plist><integer>x</integer></plist>''"

definition value_error_env :: env where
  "value_error_env =
     demo_env\<lparr>parsePlist := (\<lambda>s. if s = bad_integer
                                   then Inl (ValueError ''invalid literal for int() with base 10'')
                                   else demo_parsePlist s)\<rparr>"

definition broken_world :: world where
  "broken_world =
     \<lparr>fs = Dir [(''repo'', Dir [(''manifests'', Dir [(''broken'', File bad_integer)])])],
      logged = [], vcs = []\<rparr>"

text \<open>
  A repository whose manifests lie under directories with a dot in front: \<open>.hg\<close>, which
  \<open>list\<close> does not skip, and \<open>.git\<close>, which it does.
\<close>

definition dotdirs_world :: world where
  "dotdirs_world =
     \<lparr>fs = Dir [(''repo'', Dir [(''manifests'',
               Dir [(''.hg'', Dir [(''store'', File ''s''), (''.hidden'', File ''h'')]),
                    (''.git'', Dir [(''.hg'', Dir [(''store'', File ''t'')])])])])],
      logged = [], vcs = []\<rparr>"

text \<open>
  The small environment, with a full disk: writing to \<open>/repo/manifests/full\<close> raises
  \<open>IOError\<close>.
\<close>

definition disk_full_env :: env where
  "disk_full_env =
     demo_env\<lparr>faults := (\<lambda>call. if call = FileWrite ''/repo/manifests/full''
                                 then Some (IOError ''ENOSPC'') else None)\<rparr>"

text \<open>
  The small environment, with a recorder that fails: recording the addition of
  \<open>/repo/manifests/new\<close> raises \<open>OSError\<close> (the \<open>git\<close> binary is missing), recording the
  deletion of \<open>/repo/manifests/sub/m1\<close> raises an error of the recorder's own.
\<close>

definition git_fault_env :: env where
  "git_fault_env =
     demo_env\<lparr>faults := (\<lambda>call. if call = GitAdd ''/repo/manifests/new''
                                 then Some (OSError ''ENOENT'')
                                 else if call = GitDelete ''/repo/manifests/sub/m1''
                                 then Some (OtherError ''GitError'')
                                 else None)\<rparr>"

section \<open>No silent overwrite\<close>

text \<open>
  C1. For every identifier \<open>(kind, pathname)\<close> whose resolved file already exists,
  \<open>new\<close> fails with \<open>PlistAlreadyExistsError\<close>, and the world it leaves is the world
  it found: the file tree (so the contents of the existing file), the log and the
  recorded events are untouched, for the error is raised before any other call.
\<close>

theorem new_existing_fails:
  assumes "os_path_exists (fs w) (filepath_of E kind pathname)"
  shows "Plist_new E w kind pathname user plist_data =
           (Inl (PlistAlreadyExistsError (kind @ ''/'' @ pathname @ '' already exists!'')), w)"
  using assms by (simp add: Plist_new_def Let_def)

theorem new_existing_fails_witness:
  "os_path_exists (fs demo_world) (filepath_of demo_env ''manifests'' ''site_default'')
   \<and> Plist_new demo_env demo_world ''manifests'' ''site_default'' (Some ''alice'') None =
       (Inl (PlistAlreadyExistsError ''manifests/site_default already exists!''), demo_world)"
proof -
  have h: "os_path_exists (fs demo_world) (filepath_of demo_env ''manifests'' ''site_default'')"
    by code_simp
  show ?thesis
    using h new_existing_fails [OF h, of "Some ''alice''" None] by simp
qed

section \<open>Facts about the file tree\<close>

lemma lookup_put_same: "put t c n = Some t' \<Longrightarrow> lookup t' c = Some n"
  by (induction t c n arbitrary: t' rule: put.induct)
     (auto simp: update_conv' split: option.splits if_splits)

lemma is_dir_Nil: "is_dir t [] = is_Dir t"
  by (cases t) (simp_all add: is_dir_def)

lemma is_dir_File_Cons: "is_dir (File d) (y # ys) = False"
  by (simp add: is_dir_def)

lemma is_dir_Dir_Cons:
  "is_dir (Dir es) (y # ys) = (case map_of es y of None \<Rightarrow> False | Some ch \<Rightarrow> is_dir ch ys)"
  by (simp add: is_dir_def split: option.splits)

lemma is_dir_put_file:
  "put t c n = Some t' \<Longrightarrow> \<not> is_Dir n \<Longrightarrow> \<not> is_dir t c \<Longrightarrow> is_dir t' x = is_dir t x"
proof (induction t c n arbitrary: t' x rule: put.induct)
  case (1 t n)
  then show ?case by (cases x; cases t; cases n) (auto simp: is_dir_Nil is_dir_File_Cons)
next
  case (2 d s ss n)
  then show ?case by simp
next
  case (3 es s ss n)
  show ?case
  proof (cases x)
    case Nil
    with "3.prems" show ?thesis by (auto simp: is_dir_Nil split: option.splits if_splits)
  next
    case (Cons y ys)
    show ?thesis
    proof (cases "map_of es s")
      case None
      with "3.prems" have t': "t' = Dir (AList.update s n es)" and "ss = []"
        by (auto split: if_splits)
      show ?thesis using None "3.prems"(2)
        by (cases ys; cases n) (simp_all add: Cons t' is_dir_Dir_Cons update_conv' is_dir_Nil is_dir_File_Cons)
    next
      case (Some ch)
      with "3.prems"(1) obtain ch' where ch': "put ch ss n = Some ch'"
        and t': "t' = Dir (AList.update s ch' es)"
        by (auto split: option.splits)
      from "3.prems"(3) Some have nd: "\<not> is_dir ch ss" by (simp add: is_dir_Dir_Cons)
      from "3.IH" [OF Some ch' "3.prems"(2) nd] have IH: "is_dir ch' ys = is_dir ch ys" .
      show ?thesis
        using IH Some by (simp add: Cons t' is_dir_Dir_Cons update_conv')
    qed
  qed
qed

lemma resolve_cong_is_dir:
  assumes "\<And>x. is_dir t' x = is_dir t x"
  shows "resolve t' cur segs = resolve t cur segs"
proof (induction segs arbitrary: cur)
  case Nil
  show ?case by simp
next
  case (Cons s ss)
  have d: "is_dir t' cur = is_dir t cur" by (rule assms)
  show ?case by (simp only: resolve.simps d Cons.IH)
qed

lemma namei_cong_is_dir:
  assumes "\<And>x. is_dir t' x = is_dir t x"
  shows "namei t' p = namei t p"
  by (simp only: namei_def resolve_cong_is_dir [OF assms])

lemma lookup_remove_same: "c \<noteq> [] \<Longrightarrow> lookup (remove t c) c = None"
  by (induction t c rule: remove.induct)
     (auto simp: update_conv' delete_conv' split: option.splits)

lemma is_dir_remove_file:
  "lookup t c = Some (File d) \<Longrightarrow> is_dir (remove t c) x = is_dir t x"
proof (induction t c arbitrary: x rule: remove.induct)
  case (1 t)
  then show ?case by simp
next
  case (2 d' s ss)
  then show ?case by simp
next
  case (3 es s ss)
  from "3.prems" obtain ch where ch: "map_of es s = Some ch" and l: "lookup ch ss = Some (File d)"
    by (auto split: option.splits)
  show ?case
  proof (cases x)
    case Nil
    then show ?thesis using ch by (simp add: is_dir_Nil)
  next
    case (Cons y ys)
    show ?thesis
    proof (cases "ss = []")
      case True
      with l have "ch = File d" by simp
      then show ?thesis using ch True
        by (cases ys) (simp_all add: Cons is_dir_Dir_Cons delete_conv' is_dir_Nil is_dir_File_Cons)
    next
      case False
      from "3.IH" [OF False ch l] have IH: "is_dir (remove ch ss) ys = is_dir ch ys" .
      show ?thesis using IH ch False
        by (simp add: Cons is_dir_Dir_Cons update_conv')
    qed
  qed
qed

lemma resolve_Some_is_dir: "resolve t cur (s # ss) = Some c \<Longrightarrow> is_dir t cur"
  by (simp split: if_splits)

lemma split_on_not_Nil [simp]: "split_on c s \<noteq> []"
  by (induction s) (auto split: list.splits)

lemma namei_Some_root_dir: "namei t p = Some c \<Longrightarrow> is_dir t []"
  by (cases "split_on CHR ''/'' p")
     (auto simp: namei_def split: if_splits dest: resolve_Some_is_dir)

section \<open>Facts about the calls\<close>

lemma open_w_Inr:
  assumes "open_w E w p = (Inr c, w1)"
  shows "namei (fs w) p = Some c" and "\<not> is_dir (fs w) c"
    and "put (fs w) c (File []) = Some (fs w1)"
    and "logged w1 = logged w" and "vcs w1 = vcs w"
  using assms by (auto simp: open_w_def split: option.splits if_splits)

lemma file_write_Inr:
  assumes "file_write E w p c bytes = (Inr u, w1)"
  shows "put (fs w) c (File bytes) = Some (fs w1)"
    and "logged w1 = logged w" and "vcs w1 = vcs w"
  using assms by (auto simp: file_write_def split: option.splits)

lemma written_file:
  assumes o: "open_w E w p = (Inr c, w1)"
    and f: "file_write E w1 p c bytes = (Inr u, w2)"
  shows "namei (fs w2) p = Some c" and "lookup (fs w2) c = Some (File bytes)"
proof -
  note o' = open_w_Inr [OF o] and f' = file_write_Inr [OF f]
  have d1: "\<And>x. is_dir (fs w1) x = is_dir (fs w) x"
    using is_dir_put_file [OF o'(3) _ o'(2)] by simp
  have "lookup (fs w1) c = Some (File [])"
    by (rule lookup_put_same [OF o'(3)])
  then have nd: "\<not> is_dir (fs w1) c" by (simp add: is_dir_def)
  have d2: "\<And>x. is_dir (fs w2) x = is_dir (fs w1) x"
    using is_dir_put_file [OF f'(1) _ nd] by simp
  have "namei (fs w2) p = namei (fs w1) p" by (rule namei_cong_is_dir [OF d2])
  also have "\<dots> = namei (fs w) p" by (rule namei_cong_is_dir [OF d1])
  finally show "namei (fs w2) p = Some c" using o'(1) by simp
  show "lookup (fs w2) c = Some (File bytes)" by (rule lookup_put_same [OF f'(1)])
qed

lemma fs_LOGGER_info [simp]: "fs (LOGGER_info msg w) = fs w"
  by (simp add: LOGGER_info_def)

lemma fs_LOGGER_error [simp]: "fs (LOGGER_error msg w) = fs w"
  by (simp add: LOGGER_error_def)

lemma fs_MunkiGit_add:
  "MunkiGit_add_file_at_path E w p user = (r, w') \<Longrightarrow> fs w' = fs w"
  by (auto simp: MunkiGit_add_file_at_path_def split: option.splits)

lemma fs_MunkiGit_delete:
  "MunkiGit_delete_file_at_path E w p user = (r, w') \<Longrightarrow> fs w' = fs w"
  by (auto simp: MunkiGit_delete_file_at_path_def split: option.splits)

lemma fs_add_if:
  "(if b then MunkiGit_add_file_at_path E w3 fp user else (Inr (), w3)) = (r, w')
     \<Longrightarrow> fs w' = fs w3"
  by (auto simp: MunkiGit_add_file_at_path_def split: if_splits option.splits)

lemma fs_delete_if:
  "(if b then MunkiGit_delete_file_at_path E w3 fp user else (Inr (), w3)) = (r, w')
     \<Longrightarrow> fs w' = fs w3"
  by (auto simp: MunkiGit_delete_file_at_path_def split: if_splits option.splits)

lemma encode_utf8_Inr: "encode_utf8 data = Inr bytes \<Longrightarrow> bytes = data"
  by (simp add: encode_utf8_def split: if_splits)

lemma new_try_Inr:
  assumes "new_try E w kind pathname fp user data = (Inr (), w')"
  shows "\<exists>c. namei (fs w') fp = Some c \<and> lookup (fs w') c = Some (File data)"
proof -
  from assms obtain c w1 where o: "open_w E w fp = (Inr c, w1)"
    by (auto simp: new_try_def split: prod.splits sum.splits)
  from assms o have e: "encode_utf8 data = Inr data"
    by (auto simp: new_try_def split: sum.splits dest: encode_utf8_Inr)
  from assms o e obtain w2 where f: "file_write E w1 fp c data = (Inr (), w2)"
    by (auto simp: new_try_def split: prod.splits sum.splits)
  let ?w3 = "LOGGER_info (''Created '' @ kind @ ''/'' @ pathname) w2"
  from assms o e f have
    "(if truthy user \<and> truthy (GIT E) then MunkiGit_add_file_at_path E ?w3 fp user
      else (Inr (), ?w3)) = (Inr (), w')"
    by (simp add: new_try_def Let_def split del: if_split cong del: if_weak_cong)
  then have "fs w' = fs ?w3" by (rule fs_add_if)
  then have fs: "fs w' = fs w2" by simp
  from written_file [OF o f] fs show ?thesis by simp
qed

lemma write_try_Inr:
  assumes "write_try E w kind pathname fp user data = (Inr (), w')"
  shows "\<exists>c. namei (fs w') fp = Some c \<and> lookup (fs w') c = Some (File data)"
proof -
  from assms obtain c w1 where o: "open_w E w fp = (Inr c, w1)"
    by (auto simp: write_try_def split: prod.splits sum.splits)
  from assms o obtain w2 where f: "file_write E w1 fp c data = (Inr (), w2)"
    by (auto simp: write_try_def split: prod.splits sum.splits)
  let ?w3 = "LOGGER_info (''Wrote '' @ kind @ ''/'' @ pathname) w2"
  from assms o f have
    "(if truthy user \<and> truthy (GIT E) then MunkiGit_add_file_at_path E ?w3 fp user
      else (Inr (), ?w3)) = (Inr (), w')"
    by (simp add: write_try_def Let_def split del: if_split cong del: if_weak_cong)
  then have "fs w' = fs ?w3" by (rule fs_add_if)
  then have fs: "fs w' = fs w2" by simp
  from written_file [OF o f] fs show ?thesis by simp
qed

lemma read_of_file:
  assumes "namei (fs w) (filepath_of E kind pathname) = Some c"
    and "lookup (fs w) c = Some (File bytes)"
    and "faults E (OpenR (filepath_of E kind pathname)) = None"
  shows "os_path_exists (fs w) (filepath_of E kind pathname)"
    and "plistlib_readPlist E w (filepath_of E kind pathname) = parsePlist E bytes"
  using assms by (simp_all add: os_path_exists_def plistlib_readPlist_def)

lemma Plist_read_Inr:
  assumes "os_path_exists (fs w) (filepath_of E kind pathname)"
    and "plistlib_readPlist E w (filepath_of E kind pathname) = Inr m"
  shows "Plist_read E w kind pathname = (Inr m, w)"
  using assms by (simp add: Plist_read_def Let_def)

lemma Plist_write_Inr:
  assumes "Plist_write E w data kind pathname user = (Inr (), w')"
  shows "\<exists>c. namei (fs w') (filepath_of E kind pathname) = Some c
             \<and> lookup (fs w') c = Some (File data)"
proof -
  from assms obtain w1 where
    "write_try E w1 kind pathname (filepath_of E kind pathname) user data = (Inr (), w')"
    by (auto simp: Plist_write_def Let_def split: prod.splits sum.splits if_splits)
  then show ?thesis by (rule write_try_Inr)
qed

section \<open>Write, then read\<close>

text \<open>
  C3. After a successful \<open>write(data, kind, pathname, user)\<close> the file at the resolved
  path holds exactly the bytes \<open>data\<close>, and when \<open>data\<close> is valid structured content
  (the parser returns a record for it) \<open>read(kind, pathname)\<close> returns that record,
  provided the read is not hit by an I/O fault of its own.
\<close>

theorem write_then_read:
  assumes "Plist_write E w data kind pathname user = (Inr (), w')"
    and "parsePlist E data = Inr m"
    and "faults E (OpenR (filepath_of E kind pathname)) = None"
  shows "(\<exists>c. namei (fs w') (filepath_of E kind pathname) = Some c
              \<and> lookup (fs w') c = Some (File data))
         \<and> Plist_read E w' kind pathname = (Inr m, w')"
proof -
  from Plist_write_Inr [OF assms(1)] obtain c where
    c: "namei (fs w') (filepath_of E kind pathname) = Some c"
       "lookup (fs w') c = Some (File data)" by blast
  note r = read_of_file [OF c assms(3)]
  have "Plist_read E w' kind pathname = (Inr m, w')"
    by (rule Plist_read_Inr [OF r(1)]) (simp add: r(2) assms(2))
  with c show ?thesis by blast
qed

theorem write_then_read_witness:
  "fst (Plist_write demo_env demo_world demo_data ''pkgsinfo'' ''foo/bar.plist'' (Some ''alice''))
     = Inr ()
   \<and> parsePlist demo_env demo_data = Inr demo_pkginfo
   \<and> faults demo_env (OpenR (filepath_of demo_env ''pkgsinfo'' ''foo/bar.plist'')) = None
   \<and> Plist_read demo_env
        (snd (Plist_write demo_env demo_world demo_data ''pkgsinfo'' ''foo/bar.plist''
                (Some ''alice'')))
        ''pkgsinfo'' ''foo/bar.plist''
      = (Inr demo_pkginfo,
         snd (Plist_write demo_env demo_world demo_data ''pkgsinfo'' ''foo/bar.plist''
                (Some ''alice'')))"
proof -
  let ?r = "Plist_write demo_env demo_world demo_data ''pkgsinfo'' ''foo/bar.plist''
              (Some ''alice'')"
  have a: "fst ?r = Inr ()" by code_simp
  then have a': "?r = (Inr (), snd ?r)" by (simp add: prod_eq_iff)
  have b: "parsePlist demo_env demo_data = Inr demo_pkginfo" by code_simp
  have c: "faults demo_env (OpenR (filepath_of demo_env ''pkgsinfo'' ''foo/bar.plist'')) = None"
    by (simp add: demo_env_def no_faults_def)
  from write_then_read [OF a' b c] a b c show ?thesis by simp
qed

section \<open>Parse failures and I/O failures of read\<close>

text \<open>
  C2. On an existing file whose bytes the parser rejects, \<open>read\<close> returns the empty
  record and reports nothing when the parser raises \<open>ExpatError\<close>, and only then: the
  second handler, commented \<open>could not parse, return empty dict\<close>, names \<open>ExpatError\<close>
  and \<open>IOError\<close>, so any other error of the parser (the \<open>ValueError\<close> of an \<open>integer\<close>
  element that holds no number, the \<open>AttributeError\<close> of a value in a dictionary with no
  key before it) leaves \<open>read\<close> as it is, neither replaced by the empty record nor wrapped
  nor logged. An \<open>IOError\<close> or \<open>OSError\<close> raised while reading is wrapped as
  \<open>PlistReadError\<close>, logged at error severity and raised.
\<close>

theorem read_parse_failure:
  "(namei (fs w) (filepath_of E kind pathname) = Some c
      \<and> lookup (fs w) c = Some (File bytes)
      \<and> faults E (OpenR (filepath_of E kind pathname)) = None
      \<and> parsePlist E bytes = Inl (ExpatError m)
    \<longrightarrow> Plist_read E w kind pathname = (Inr [], w))
   \<and> (namei (fs w) (filepath_of E kind pathname) = Some c
      \<and> lookup (fs w) c = Some (File bytes)
      \<and> faults E (OpenR (filepath_of E kind pathname)) = None
      \<and> parsePlist E bytes = Inl err
      \<and> \<not> is_ExpatError err \<and> \<not> is_IOError err \<and> \<not> is_OSError err
    \<longrightarrow> Plist_read E w kind pathname = (Inl err, w))
   \<and> (os_path_exists (fs w) (filepath_of E kind pathname)
      \<and> plistlib_readPlist E w (filepath_of E kind pathname) = Inl err
      \<and> (is_IOError err \<or> is_OSError err)
    \<longrightarrow> Plist_read E w kind pathname =
          (Inl (PlistReadError err),
           LOGGER_error (''Read failed for '' @ kind @ ''/'' @ pathname @ '': '' @ str_exn err) w))"
proof (intro conjI impI)
  assume h: "namei (fs w) (filepath_of E kind pathname) = Some c
      \<and> lookup (fs w) c = Some (File bytes)
      \<and> faults E (OpenR (filepath_of E kind pathname)) = None
      \<and> parsePlist E bytes = Inl (ExpatError m)"
  then have "os_path_exists (fs w) (filepath_of E kind pathname)"
    and "plistlib_readPlist E w (filepath_of E kind pathname) = Inl (ExpatError m)"
    by (simp_all add: os_path_exists_def plistlib_readPlist_def)
  then show "Plist_read E w kind pathname = (Inr [], w)"
    by (simp add: Plist_read_def Let_def)
next
  assume h: "namei (fs w) (filepath_of E kind pathname) = Some c
      \<and> lookup (fs w) c = Some (File bytes)
      \<and> faults E (OpenR (filepath_of E kind pathname)) = None
      \<and> parsePlist E bytes = Inl err
      \<and> \<not> is_ExpatError err \<and> \<not> is_IOError err \<and> \<not> is_OSError err"
  then have "os_path_exists (fs w) (filepath_of E kind pathname)"
    and "plistlib_readPlist E w (filepath_of E kind pathname) = Inl err"
    by (simp_all add: os_path_exists_def plistlib_readPlist_def)
  with h show "Plist_read E w kind pathname = (Inl err, w)"
    by (simp add: Plist_read_def Let_def)
next
  assume "os_path_exists (fs w) (filepath_of E kind pathname)
      \<and> plistlib_readPlist E w (filepath_of E kind pathname) = Inl err
      \<and> (is_IOError err \<or> is_OSError err)"
  then show "Plist_read E w kind pathname =
          (Inl (PlistReadError err),
           LOGGER_error (''Read failed for '' @ kind @ ''/'' @ pathname @ '': '' @ str_exn err) w)"
    by (simp add: Plist_read_def Let_def)
qed

theorem read_parse_failure_witness:
  "parsePlist demo_env ''abc'' = Inl (ExpatError ''syntax error'')
   \<and> Plist_read demo_env demo_world ''manifests'' ''site_default'' = (Inr [], demo_world)
   \<and> os_path_exists (fs broken_world) (filepath_of value_error_env ''manifests'' ''broken'')
   \<and> lookup (fs broken_world) [''repo'', ''manifests'', ''broken'']
       = Some (File ''<plist><integer>x</integer></plist>'')
   \<and> parsePlist value_error_env ''<plist><integer>x</integer></plist>''
       = Inl (ValueError ''invalid literal for int() with base 10'')
   \<and> Plist_read value_error_env broken_world ''manifests'' ''broken''
       = (Inl (ValueError ''invalid literal for int() with base 10''), broken_world)
   \<and> \<not> is_PlistError (ValueError ''invalid literal for int() with base 10'')
   \<and> Plist_read value_error_env broken_world ''manifests'' ''broken'' \<noteq> (Inr [], broken_world)
   \<and> os_path_exists (fs demo_world) (filepath_of demo_env ''manifests'' ''sub'')
   \<and> plistlib_readPlist demo_env demo_world (filepath_of demo_env ''manifests'' ''sub'')
       = Inl (IOError ''EISDIR'')
   \<and> Plist_read demo_env demo_world ''manifests'' ''sub''
       = (Inl (PlistReadError (IOError ''EISDIR'')),
          LOGGER_error (''Read failed for '' @ ''manifests'' @ ''/'' @ ''sub'' @ '': ''
                          @ str_exn (IOError ''EISDIR'')) demo_world)"
proof -
  let ?v = "ValueError ''invalid literal for int() with base 10''"
  have a: "namei (fs demo_world) (filepath_of demo_env ''manifests'' ''site_default'')
     = Some [''repo'', ''manifests'', ''site_default'']" by code_simp
  have b: "lookup (fs demo_world) [''repo'', ''manifests'', ''site_default''] = Some (File ''abc'')"
    by code_simp
  have c: "faults demo_env (OpenR (filepath_of demo_env ''manifests'' ''site_default'')) = None"
    by (simp add: demo_env_def no_faults_def)
  have d: "parsePlist demo_env ''abc'' = Inl (ExpatError ''syntax error'')" by code_simp
  have a2: "namei (fs broken_world) (filepath_of value_error_env ''manifests'' ''broken'')
     = Some [''repo'', ''manifests'', ''broken'']" by code_simp
  have b2: "lookup (fs broken_world) [''repo'', ''manifests'', ''broken'']
     = Some (File ''<plist><integer>x</integer></plist>'')"
    by code_simp
  have c2: "faults value_error_env (OpenR (filepath_of value_error_env ''manifests'' ''broken''))
     = None"
    by (simp add: value_error_env_def demo_env_def no_faults_def)
  have d2: "parsePlist value_error_env ''<plist><integer>x</integer></plist>'' = Inl ?v"
    by code_simp
  have x2: "os_path_exists (fs broken_world) (filepath_of value_error_env ''manifests'' ''broken'')"
    by code_simp
  have n2: "\<not> is_ExpatError ?v \<and> \<not> is_IOError ?v \<and> \<not> is_OSError ?v" by simp
  have p2: "\<not> is_PlistError ?v" by simp
  have e: "os_path_exists (fs demo_world) (filepath_of demo_env ''manifests'' ''sub'')"
    by code_simp
  have f: "plistlib_readPlist demo_env demo_world (filepath_of demo_env ''manifests'' ''sub'')
       = Inl (IOError ''EISDIR'')" by code_simp
  have g: "is_IOError (IOError ''EISDIR'') \<or> is_OSError (IOError ''EISDIR'')" by simp
  note T = read_parse_failure
  note t1 = T
    [where w = demo_world and E = demo_env and kind = "''manifests''"
       and pathname = "''site_default''" and c = "[''repo'', ''manifests'', ''site_default'']"
       and bytes = "''abc''" and m = "''syntax error''",
     THEN conjunct1, rule_format, OF conjI [OF a conjI [OF b conjI [OF c d]]]]
  note t2 = T
    [where w = broken_world and E = value_error_env and kind = "''manifests''"
       and pathname = "''broken''" and c = "[''repo'', ''manifests'', ''broken'']"
       and bytes = "''<plist><integer>x</integer></plist>''" and err = ?v,
     THEN conjunct2, THEN conjunct1, rule_format,
     OF conjI [OF a2 conjI [OF b2 conjI [OF c2 conjI [OF d2 n2]]]]]
  note t3 = T
    [where w = demo_world and E = demo_env and kind = "''manifests''" and pathname = "''sub''"
       and err = "IOError ''EISDIR''",
     THEN conjunct2, THEN conjunct2, rule_format, OF conjI [OF e conjI [OF f g]]]
  from t2 have q2: "Plist_read value_error_env broken_world ''manifests'' ''broken''
                      \<noteq> (Inr [], broken_world)" by simp
  show ?thesis by (intro conjI d t1 x2 b2 d2 t2 p2 q2 e f t3)
qed

section \<open>The record new makes up\<close>

lemma Plist_new_Inr:
  assumes "Plist_new E w kind pathname user pd = (Inr data, w')"
  shows "\<exists>plist. (if truthy pd then pd else default_plist kind) = Some plist
           \<and> data = writePlistToString E plist
           \<and> (\<exists>c. namei (fs w') (filepath_of E kind pathname) = Some c
                    \<and> lookup (fs w') c = Some (File data))"
proof -
  let ?fp = "filepath_of E kind pathname"
  from assms have ne: "\<not> os_path_exists (fs w) ?fp"
    by (auto simp: Plist_new_def Let_def split: if_splits)
  obtain r w1 where step:
    "(if os_path_exists (fs w) (os_path_dirname ?fp) then (Inr (), w)
      else os_makedirs E w (os_path_dirname ?fp)) = (r, w1)"
    by (cases "if os_path_exists (fs w) (os_path_dirname ?fp) then (Inr (), w)
               else os_makedirs E w (os_path_dirname ?fp)") blast
  from assms ne step have r: "r = Inr ()"
    by (cases r) (auto simp: Plist_new_def Let_def split: if_splits)
  from assms ne step r obtain plist where
    pl: "(if truthy pd then pd else default_plist kind) = Some plist"
    by (cases "if truthy pd then pd else default_plist kind")
       (auto simp: Plist_new_def Let_def)
  from assms ne step r pl have
    t: "new_try E w1 kind pathname ?fp user (writePlistToString E plist) = (Inr (), w')"
    and d: "data = writePlistToString E plist"
    by (auto simp: Plist_new_def Let_def split: prod.splits sum.splits if_splits)
  from new_try_Inr [OF t] pl d show ?thesis by blast
qed

lemma default_plist_manifests:
  "default_plist ''manifests'' =
     Some [(''catalogs'', PArray []), (''included_manifests'', PArray []),
           (''managed_installs'', PArray []), (''managed_uninstalls'', PArray []),
           (''managed_updates'', PArray []), (''optional_installs'', PArray [])]"
  by (simp add: default_plist_def)

lemma default_plist_pkgsinfo:
  "default_plist ''pkgsinfo'' =
     Some [(''name'', PString ''ProductName''),
           (''display_name'', PString ''Display Name''),
           (''description'', PString ''Product description''),
           (''version'', PString ''1.0''),
           (''catalogs'', PArray [PString ''development''])]"
  by (simp add: default_plist_def)

lemma new_then_read:
  assumes n: "Plist_new E w kind pathname user pd = (Inr data, w')"
    and p: "parsePlist E data = Inr plist"
    and f: "faults E (OpenR (filepath_of E kind pathname)) = None"
  shows "Plist_read E w' kind pathname = (Inr plist, w')"
proof -
  from Plist_new_Inr [OF n] obtain c where
    c: "namei (fs w') (filepath_of E kind pathname) = Some c"
       "lookup (fs w') c = Some (File data)"
    by auto
  note r = read_of_file [OF c f]
  show ?thesis by (rule Plist_read_Inr [OF r(1)]) (simp add: r(2) p)
qed

section \<open>Directory creation and removal\<close>

lemma put_dir_files:
  "put t c (Dir []) = Some t' \<Longrightarrow> lookup t c = None
     \<Longrightarrow> (lookup t' x = Some (File d)) = (lookup t x = Some (File d))"
proof (induction t c "Dir [] :: node" arbitrary: t' x rule: put.induct)
  case (1 t)
  then show ?case by simp
next
  case (2 d' s ss)
  then show ?case by simp
next
  case (3 es s ss)
  show ?case
  proof (cases x)
    case Nil
    with "3.prems" show ?thesis by (auto split: option.splits if_splits)
  next
    case (Cons y ys)
    show ?thesis
    proof (cases "map_of es s")
      case None
      with "3.prems" have t': "t' = Dir (AList.update s (Dir []) es)"
        by (auto split: if_splits)
      show ?thesis using None
        by (cases ys) (simp_all add: Cons t' update_conv')
    next
      case (Some ch)
      with "3.prems"(1) obtain ch' where ch': "put ch ss (Dir []) = Some ch'"
        and t': "t' = Dir (AList.update s ch' es)"
        by (auto split: option.splits)
      from "3.prems"(2) Some have n: "lookup ch ss = None" by simp
      from "3.hyps" [OF Some ch' n]
      have IH: "(lookup ch' ys = Some (File d)) = (lookup ch ys = Some (File d))" .
      show ?thesis using IH Some by (simp add: Cons t' update_conv')
    qed
  qed
qed

lemma os_mkdir_files:
  assumes "os_mkdir t name = (r, t')"
  shows "(lookup t' x = Some (File d)) = (lookup t x = Some (File d))"
proof -
  let ?p = "if rstrip CHR ''/'' name = [] then name else rstrip CHR ''/'' name"
  show ?thesis
  proof (cases "namei t ?p")
    case None
    with assms show ?thesis by (simp add: os_mkdir_def)
  next
    case (Some c)
    show ?thesis
    proof (cases "lookup t c")
      case (Some n)
      with \<open>namei t ?p = Some c\<close> assms show ?thesis by (simp add: os_mkdir_def)
    next
      case None
      show ?thesis
      proof (cases "put t c (Dir [])")
        case None
        with \<open>namei t ?p = Some c\<close> \<open>lookup t c = None\<close> assms show ?thesis
          by (simp add: os_mkdir_def)
      next
        case (Some t'')
        with \<open>namei t ?p = Some c\<close> \<open>lookup t c = None\<close> assms have "t' = t''"
          by (simp add: os_mkdir_def)
        with put_dir_files [OF Some \<open>lookup t c = None\<close>] show ?thesis by simp
      qed
    qed
  qed
qed

lemma makedirs_files:
  "makedirs t name = (r, t') \<Longrightarrow> (lookup t' x = Some (File d)) = (lookup t x = Some (File d))"
proof (induction t name arbitrary: r t' rule: makedirs.induct)
  case (1 t name)
  let ?h = "fst (makedirs_split name)" and ?tl = "snd (makedirs_split name)"
  show ?case
  proof (cases "?h \<noteq> [] \<and> ?tl \<noteq> [] \<and> \<not> os_path_exists t ?h")
    case False
    with "1.prems" have "os_mkdir t name = (r, t')"
      by (subst (asm) makedirs.simps) (simp split: if_splits)
    then show ?thesis by (rule os_mkdir_files)
  next
    case True
    obtain r1 t1 where m: "makedirs t ?h = (r1, t1)" by (cases "makedirs t ?h") blast
    from "1.IH" [OF True m]
    have IH: "(lookup t1 x = Some (File d)) = (lookup t x = Some (File d))" .
    from "1.prems" True m have "t' = t1 \<or> os_mkdir t1 name = (r, t')"
      by (subst (asm) makedirs.simps) (auto split: if_splits sum.splits)
    then show ?thesis
    proof
      assume "t' = t1" with IH show ?thesis by simp
    next
      assume "os_mkdir t1 name = (r, t')"
      from os_mkdir_files [OF this] IH show ?thesis by simp
    qed
  qed
qed

lemma os_makedirs_files:
  assumes "os_makedirs E w p = (r, w')"
  shows "(lookup (fs w') x = Some (File d)) = (lookup (fs w) x = Some (File d))"
proof (cases "os_fault (faults E (Makedirs p))")
  case (Some e)
  with assms show ?thesis by (auto simp: os_makedirs_def)
next
  case None
  obtain r1 t1 where m: "makedirs (fs w) p = (r1, t1)" by (cases "makedirs (fs w) p") blast
  with None assms have "fs w' = t1" by (auto simp: os_makedirs_def)
  with makedirs_files [OF m] show ?thesis by simp
qed

lemma os_unlink_Inr:
  assumes "os_unlink E w p = (Inr (), w1)"
  shows "\<exists>c d. namei (fs w) p = Some c \<and> lookup (fs w) c = Some (File d)
            \<and> fs w1 = remove (fs w) c \<and> logged w1 = logged w \<and> vcs w1 = vcs w"
  using assms
  by (auto simp: os_unlink_def split: option.splits node.splits)

lemma unlinked_file:
  assumes "os_unlink E w p = (Inr (), w1)"
  shows "\<exists>c. namei (fs w1) p = Some c \<and> lookup (fs w1) c = None"
    and "\<not> os_path_exists (fs w1) p"
proof -
  from os_unlink_Inr [OF assms] obtain c d where n: "namei (fs w) p = Some c"
    and l: "lookup (fs w) c = Some (File d)" and f: "fs w1 = remove (fs w) c"
    by blast
  from namei_Some_root_dir [OF n] l have ne: "c \<noteq> []"
    by (auto simp: is_dir_def)
  have "\<And>x. is_dir (fs w1) x = is_dir (fs w) x"
    unfolding f by (rule is_dir_remove_file [OF l])
  then have "namei (fs w1) p = namei (fs w) p" by (rule namei_cong_is_dir)
  with n have n1: "namei (fs w1) p = Some c" by simp
  have l1: "lookup (fs w1) c = None" unfolding f by (rule lookup_remove_same [OF ne])
  from n1 l1 show "\<exists>c. namei (fs w1) p = Some c \<and> lookup (fs w1) c = None" by blast
  from n1 l1 show "\<not> os_path_exists (fs w1) p" by (simp add: os_path_exists_def)
qed

section \<open>A kind with no default record\<close>

text \<open>
  C10, as the code has it. With no record and a kind that is neither \<open>manifests\<close> nor
  \<open>pkgsinfo\<close>, \<open>new\<close> raises \<open>PlistAlreadyExistsError\<close> when the file exists, the error
  of the directory creation when that fails (as \<open>PlistWriteError\<close>, logged, when it is an
  \<open>IOError\<close> or \<open>OSError\<close>), and otherwise \<open>UnboundLocalError\<close>, before anything is
  serialised or opened. In no case is a file created or changed: the only trace in the
  tree is the missing parent directories.
\<close>

theorem new_unknown_kind:
  assumes "kind \<noteq> ''manifests''" and "kind \<noteq> ''pkgsinfo''"
  shows
  "(os_path_exists (fs w) (filepath_of E kind pathname) \<longrightarrow>
      Plist_new E w kind pathname user None =
        (Inl (PlistAlreadyExistsError (kind @ ''/'' @ pathname @ '' already exists!'')), w))
   \<and> (\<not> os_path_exists (fs w) (filepath_of E kind pathname)
       \<and> (if os_path_exists (fs w) (os_path_dirname (filepath_of E kind pathname))
           then (Inr (), w)
           else os_makedirs E w (os_path_dirname (filepath_of E kind pathname))) = (Inl err, w1)
      \<longrightarrow> Plist_new E w kind pathname user None =
           (if is_IOError err \<or> is_OSError err
            then (Inl (PlistWriteError err),
                  LOGGER_error (''Create failed for '' @ kind @ ''/'' @ pathname
                                  @ '': '' @ str_exn err) w1)
            else (Inl err, w1)))
   \<and> (\<not> os_path_exists (fs w) (filepath_of E kind pathname)
       \<and> (if os_path_exists (fs w) (os_path_dirname (filepath_of E kind pathname))
           then (Inr (), w)
           else os_makedirs E w (os_path_dirname (filepath_of E kind pathname))) = (Inr (), w1)
      \<longrightarrow> Plist_new E w kind pathname user None =
           (Inl (UnboundLocalError ''local variable 'plist' referenced before assignment''), w1))
   \<and> (lookup (fs (snd (Plist_new E w kind pathname user None))) x = Some (File d))
       = (lookup (fs w) x = Some (File d))"
proof -
  let ?fp = "filepath_of E kind pathname"
  let ?step = "if os_path_exists (fs w) (os_path_dirname ?fp) then (Inr (), w)
               else os_makedirs E w (os_path_dirname ?fp)"
  from assms have dp: "default_plist kind = None" by (simp add: default_plist_def)
  have a: "Plist_new E w kind pathname user None =
        (Inl (PlistAlreadyExistsError (kind @ ''/'' @ pathname @ '' already exists!'')), w)"
    if "os_path_exists (fs w) ?fp"
    using that by (simp add: Plist_new_def Let_def)
  have b: "Plist_new E w kind pathname user None =
           (if is_IOError e \<or> is_OSError e
            then (Inl (PlistWriteError e),
                  LOGGER_error (''Create failed for '' @ kind @ ''/'' @ pathname
                                  @ '': '' @ str_exn e) w2)
            else (Inl e, w2))"
    if "\<not> os_path_exists (fs w) ?fp \<and> ?step = (Inl e, w2)" for e w2
    using that by (simp add: Plist_new_def Let_def)
  have c: "Plist_new E w kind pathname user None =
           (Inl (UnboundLocalError ''local variable 'plist' referenced before assignment''), w2)"
    if "\<not> os_path_exists (fs w) ?fp \<and> ?step = (Inr (), w2)" for w2
    using that dp by (simp add: Plist_new_def Let_def)
  have stepfs: "(lookup (fs w2) x = Some (File d)) = (lookup (fs w) x = Some (File d))"
    if "?step = (r, w2)" for r w2
    using that by (auto split: if_splits dest: os_makedirs_files)
  have d: "(lookup (fs (snd (Plist_new E w kind pathname user None))) x = Some (File d))
       = (lookup (fs w) x = Some (File d))"
  proof (cases "os_path_exists (fs w) ?fp")
    case True
    from a [OF True] show ?thesis by simp
  next
    case False
    obtain r w2 where s: "?step = (r, w2)" by (cases ?step) blast
    show ?thesis
    proof (cases r)
      case (Inl e)
      from b [of e w2] False s Inl stepfs [OF s] show ?thesis by (simp split: if_splits)
    next
      case (Inr u)
      from c [of w2] False s Inr stepfs [OF s] show ?thesis by simp
    qed
  qed
  from a b c d show ?thesis by (intro conjI impI)
qed

theorem new_unknown_kind_witness:
  "''catalogs'' \<noteq> ''manifests'' \<and> ''catalogs'' \<noteq> ''pkgsinfo''
   \<and> \<not> os_path_exists (fs demo_world) (filepath_of demo_env ''catalogs'' ''x/all'')
   \<and> fst (os_makedirs demo_env demo_world
             (os_path_dirname (filepath_of demo_env ''catalogs'' ''x/all''))) = Inr ()
   \<and> Plist_new demo_env demo_world ''catalogs'' ''x/all'' (Some ''alice'') None =
       (Inl (UnboundLocalError ''local variable 'plist' referenced before assignment''),
        snd (os_makedirs demo_env demo_world
               (os_path_dirname (filepath_of demo_env ''catalogs'' ''x/all''))))
   \<and> is_dir (fs (snd (Plist_new demo_env demo_world ''catalogs'' ''x/all'' (Some ''alice'') None)))
        [''repo'', ''catalogs'', ''x'']
   \<and> lookup (fs (snd (Plist_new demo_env demo_world ''catalogs'' ''x/all'' (Some ''alice'') None)))
        [''repo'', ''catalogs'', ''x'', ''all''] = None"
proof -
  let ?fp = "filepath_of demo_env ''catalogs'' ''x/all''"
  let ?m = "os_makedirs demo_env demo_world (os_path_dirname ?fp)"
  have k: "''catalogs'' \<noteq> ''manifests''" "''catalogs'' \<noteq> ''pkgsinfo''" by simp_all
  have a: "\<not> os_path_exists (fs demo_world) ?fp" by code_simp
  have b: "\<not> os_path_exists (fs demo_world) (os_path_dirname ?fp)" by code_simp
  have c: "fst ?m = Inr ()" by code_simp
  then have c': "?m = (Inr (), snd ?m)" by (simp add: prod_eq_iff)
  from b c' have s: "(if os_path_exists (fs demo_world) (os_path_dirname ?fp)
           then (Inr (), demo_world) else ?m) = (Inr (), snd ?m)" by simp
  note t = new_unknown_kind [OF k, where w = demo_world and E = demo_env
      and pathname = "''x/all''" and ?w1.0 = "snd ?m" and user = "Some ''alice''",
      THEN conjunct2, THEN conjunct2, THEN conjunct1, rule_format, OF conjI [OF a s]]
  have d: "is_dir (fs (snd ?m)) [''repo'', ''catalogs'', ''x'']" by code_simp
  have e: "lookup (fs (snd ?m)) [''repo'', ''catalogs'', ''x'', ''all''] = None" by code_simp
  from k a c t d e show ?thesis by simp
qed

theorem new_unknown_kind_counterexample:
  "''catalogs'' \<noteq> ''manifests'' \<and> ''catalogs'' \<noteq> ''pkgsinfo''
   \<and> Plist_new demo_env demo_world ''catalogs'' ''all'' (Some ''alice'') None =
       (Inl (PlistAlreadyExistsError ''catalogs/all already exists!''), demo_world)
   \<and> is_PlistError (PlistAlreadyExistsError ''catalogs/all already exists!'')"
proof -
  have "Plist_new demo_env demo_world ''catalogs'' ''all'' (Some ''alice'') None =
       (Inl (PlistAlreadyExistsError ''catalogs/all already exists!''), demo_world)"
    by code_simp
  then show ?thesis by simp
qed

section \<open>The classes of the errors\<close>

lemma os_fault_class: "os_fault f = Some e \<Longrightarrow> is_OSError e"
  by (cases f rule: os_fault.cases) auto

lemma io_fault_class: "io_fault f = Some e \<Longrightarrow> is_IOError e"
  by (cases f rule: io_fault.cases) auto

lemma os_mkdir_error: "os_mkdir t name = (Inl e, t') \<Longrightarrow> is_OSError e"
  by (auto simp: os_mkdir_def Let_def split: option.splits)

lemma makedirs_error: "makedirs t name = (Inl e, t') \<Longrightarrow> is_OSError e"
proof (induction t name arbitrary: e t' rule: makedirs.induct)
  case (1 t name)
  let ?h = "fst (makedirs_split name)" and ?tl = "snd (makedirs_split name)"
  show ?case
  proof (cases "?h \<noteq> [] \<and> ?tl \<noteq> [] \<and> \<not> os_path_exists t ?h")
    case False
    with "1.prems" have "os_mkdir t name = (Inl e, t')"
      by (subst (asm) makedirs.simps) (simp split: if_splits)
    then show ?thesis by (rule os_mkdir_error)
  next
    case True
    obtain r1 t1 where m: "makedirs t ?h = (r1, t1)" by (cases "makedirs t ?h") blast
    from "1.prems" True m
    have "(r1 = Inl e \<and> t1 = t') \<or> os_mkdir t1 name = (Inl e, t')"
      by (subst (asm) makedirs.simps) (auto split: if_splits sum.splits)
    then show ?thesis
    proof
      assume "r1 = Inl e \<and> t1 = t'"
      with m have "makedirs t ?h = (Inl e, t')" by simp
      from "1.IH" [OF True this] show ?thesis .
    next
      assume "os_mkdir t1 name = (Inl e, t')"
      then show ?thesis by (rule os_mkdir_error)
    qed
  qed
qed

lemma os_makedirs_error:
  assumes "os_makedirs E w p = (Inl e, w')"
  shows "is_OSError e"
proof (cases "os_fault (faults E (Makedirs p))")
  case (Some e')
  with assms have "e' = e" by (simp add: os_makedirs_def)
  with Some show ?thesis by (simp add: os_fault_class)
next
  case None
  obtain r1 t1 where m: "makedirs (fs w) p = (r1, t1)" by (cases "makedirs (fs w) p") blast
  with None assms have "r1 = Inl e" by (auto simp: os_makedirs_def)
  with m show ?thesis by (auto dest: makedirs_error)
qed

lemma open_w_error:
  assumes "open_w E w p = (Inl e, w')"
  shows "is_IOError e"
proof (cases "io_fault (faults E (OpenW p))")
  case (Some e')
  with assms have "e' = e" by (simp add: open_w_def)
  with Some show ?thesis by (simp add: io_fault_class)
next
  case None
  with assms show ?thesis
    by (auto simp: open_w_def split: option.splits if_splits)
qed

lemma file_write_error:
  assumes "file_write E w p c bytes = (Inl e, w')"
  shows "is_IOError e"
proof (cases "io_fault (faults E (FileWrite p))")
  case (Some e')
  with assms have "e' = e" by (simp add: file_write_def)
  with Some show ?thesis by (simp add: io_fault_class)
next
  case None
  with assms show ?thesis
    by (auto simp: file_write_def split: option.splits)
qed

section \<open>I/O errors of new and write\<close>

text \<open>
  C7. In \<open>new\<close> and in \<open>write\<close>, every error of the creation of the parent
  directories (an \<open>OSError\<close>, the class \<open>os.makedirs\<close> raises) and every error of
  opening or writing the file (an \<open>IOError\<close>) is logged at error severity with the kind
  and the path, and raised as \<open>PlistWriteError\<close>.
\<close>

theorem io_errors_wrapped_as_write_error:
  "(\<not> os_path_exists (fs w) (filepath_of E kind pathname)
      \<and> \<not> os_path_exists (fs w) (os_path_dirname (filepath_of E kind pathname))
      \<and> os_makedirs E w (os_path_dirname (filepath_of E kind pathname)) = (Inl err, w1)
    \<longrightarrow> is_OSError err
        \<and> Plist_new E w kind pathname user plist_data =
          (Inl (PlistWriteError err),
           LOGGER_error (''Create failed for '' @ kind @ ''/'' @ pathname
                           @ '': '' @ str_exn err) w1))
   \<and> (\<not> os_path_exists (fs w) (filepath_of E kind pathname)
      \<and> (if os_path_exists (fs w) (os_path_dirname (filepath_of E kind pathname))
          then (Inr (), w)
          else os_makedirs E w (os_path_dirname (filepath_of E kind pathname))) = (Inr (), w1)
      \<and> (if truthy plist_data then plist_data else default_plist kind) = Some plist
      \<and> open_w E w1 (filepath_of E kind pathname) = (Inl err, w2)
    \<longrightarrow> is_IOError err
        \<and> Plist_new E w kind pathname user plist_data =
          (Inl (PlistWriteError err),
           LOGGER_error (''Create failed for '' @ kind @ ''/'' @ pathname
                           @ '': '' @ str_exn err) w2))
   \<and> (\<not> os_path_exists (fs w) (filepath_of E kind pathname)
      \<and> (if os_path_exists (fs w) (os_path_dirname (filepath_of E kind pathname))
          then (Inr (), w)
          else os_makedirs E w (os_path_dirname (filepath_of E kind pathname))) = (Inr (), w1)
      \<and> (if truthy plist_data then plist_data else default_plist kind) = Some plist
      \<and> open_w E w1 (filepath_of E kind pathname) = (Inr c, w2)
      \<and> encode_utf8 (writePlistToString E plist) = Inr bytes
      \<and> file_write E w2 (filepath_of E kind pathname) c bytes = (Inl err, w3)
    \<longrightarrow> is_IOError err
        \<and> Plist_new E w kind pathname user plist_data =
          (Inl (PlistWriteError err),
           LOGGER_error (''Create failed for '' @ kind @ ''/'' @ pathname
                           @ '': '' @ str_exn err) w3))
   \<and> (\<not> os_path_exists (fs w) (os_path_dirname (filepath_of E kind pathname))
      \<and> os_makedirs E w (os_path_dirname (filepath_of E kind pathname)) = (Inl err, w1)
    \<longrightarrow> is_OSError err
        \<and> Plist_write E w data kind pathname user =
          (Inl (PlistWriteError err),
           LOGGER_error (''Create failed for '' @ kind @ ''/'' @ pathname
                           @ '': '' @ str_exn err) w1))
   \<and> ((if os_path_exists (fs w) (os_path_dirname (filepath_of E kind pathname))
          then (Inr (), w)
          else os_makedirs E w (os_path_dirname (filepath_of E kind pathname))) = (Inr (), w1)
      \<and> open_w E w1 (filepath_of E kind pathname) = (Inl err, w2)
    \<longrightarrow> is_IOError err
        \<and> Plist_write E w data kind pathname user =
          (Inl (PlistWriteError err),
           LOGGER_error (''Write failed for '' @ kind @ ''/'' @ pathname
                           @ '': '' @ str_exn err) w2))
   \<and> ((if os_path_exists (fs w) (os_path_dirname (filepath_of E kind pathname))
          then (Inr (), w)
          else os_makedirs E w (os_path_dirname (filepath_of E kind pathname))) = (Inr (), w1)
      \<and> open_w E w1 (filepath_of E kind pathname) = (Inr c, w2)
      \<and> file_write E w2 (filepath_of E kind pathname) c data = (Inl err, w3)
    \<longrightarrow> is_IOError err
        \<and> Plist_write E w data kind pathname user =
          (Inl (PlistWriteError err),
           LOGGER_error (''Write failed for '' @ kind @ ''/'' @ pathname
                           @ '': '' @ str_exn err) w3))"
proof (intro conjI impI)
  assume h: "\<not> os_path_exists (fs w) (filepath_of E kind pathname)
      \<and> \<not> os_path_exists (fs w) (os_path_dirname (filepath_of E kind pathname))
      \<and> os_makedirs E w (os_path_dirname (filepath_of E kind pathname)) = (Inl err, w1)"
  then show c: "is_OSError err" by (auto dest: os_makedirs_error)
  from h c show "Plist_new E w kind pathname user plist_data =
          (Inl (PlistWriteError err),
           LOGGER_error (''Create failed for '' @ kind @ ''/'' @ pathname
                           @ '': '' @ str_exn err) w1)"
    by (simp add: Plist_new_def Let_def)
next
  assume h: "\<not> os_path_exists (fs w) (filepath_of E kind pathname)
      \<and> (if os_path_exists (fs w) (os_path_dirname (filepath_of E kind pathname))
          then (Inr (), w)
          else os_makedirs E w (os_path_dirname (filepath_of E kind pathname))) = (Inr (), w1)
      \<and> (if truthy plist_data then plist_data else default_plist kind) = Some plist
      \<and> open_w E w1 (filepath_of E kind pathname) = (Inl err, w2)"
  then show c: "is_IOError err" by (auto dest: open_w_error)
  from h have "new_try E w1 kind pathname (filepath_of E kind pathname) user
      (writePlistToString E plist) = (Inl err, w2)"
    by (simp add: new_try_def)
  with h c show "Plist_new E w kind pathname user plist_data =
          (Inl (PlistWriteError err),
           LOGGER_error (''Create failed for '' @ kind @ ''/'' @ pathname
                           @ '': '' @ str_exn err) w2)"
    by (simp add: Plist_new_def Let_def)
next
  assume h: "\<not> os_path_exists (fs w) (filepath_of E kind pathname)
      \<and> (if os_path_exists (fs w) (os_path_dirname (filepath_of E kind pathname))
          then (Inr (), w)
          else os_makedirs E w (os_path_dirname (filepath_of E kind pathname))) = (Inr (), w1)
      \<and> (if truthy plist_data then plist_data else default_plist kind) = Some plist
      \<and> open_w E w1 (filepath_of E kind pathname) = (Inr c, w2)
      \<and> encode_utf8 (writePlistToString E plist) = Inr bytes
      \<and> file_write E w2 (filepath_of E kind pathname) c bytes = (Inl err, w3)"
  then show c: "is_IOError err" by (auto dest: file_write_error)
  from h have "new_try E w1 kind pathname (filepath_of E kind pathname) user
      (writePlistToString E plist) = (Inl err, w3)"
    by (simp add: new_try_def)
  with h c show "Plist_new E w kind pathname user plist_data =
          (Inl (PlistWriteError err),
           LOGGER_error (''Create failed for '' @ kind @ ''/'' @ pathname
                           @ '': '' @ str_exn err) w3)"
    by (simp add: Plist_new_def Let_def)
next
  assume h: "\<not> os_path_exists (fs w) (os_path_dirname (filepath_of E kind pathname))
      \<and> os_makedirs E w (os_path_dirname (filepath_of E kind pathname)) = (Inl err, w1)"
  then show c: "is_OSError err" by (auto dest: os_makedirs_error)
  from h c show "Plist_write E w data kind pathname user =
          (Inl (PlistWriteError err),
           LOGGER_error (''Create failed for '' @ kind @ ''/'' @ pathname
                           @ '': '' @ str_exn err) w1)"
    by (simp add: Plist_write_def Let_def)
next
  assume h: "(if os_path_exists (fs w) (os_path_dirname (filepath_of E kind pathname))
          then (Inr (), w)
          else os_makedirs E w (os_path_dirname (filepath_of E kind pathname))) = (Inr (), w1)
      \<and> open_w E w1 (filepath_of E kind pathname) = (Inl err, w2)"
  then show c: "is_IOError err" by (auto dest: open_w_error)
  from h have "write_try E w1 kind pathname (filepath_of E kind pathname) user data
      = (Inl err, w2)"
    by (simp add: write_try_def)
  with h c show "Plist_write E w data kind pathname user =
          (Inl (PlistWriteError err),
           LOGGER_error (''Write failed for '' @ kind @ ''/'' @ pathname
                           @ '': '' @ str_exn err) w2)"
    by (simp add: Plist_write_def Let_def)
next
  assume h: "(if os_path_exists (fs w) (os_path_dirname (filepath_of E kind pathname))
          then (Inr (), w)
          else os_makedirs E w (os_path_dirname (filepath_of E kind pathname))) = (Inr (), w1)
      \<and> open_w E w1 (filepath_of E kind pathname) = (Inr c, w2)
      \<and> file_write E w2 (filepath_of E kind pathname) c data = (Inl err, w3)"
  then show c: "is_IOError err" by (auto dest: file_write_error)
  from h have "write_try E w1 kind pathname (filepath_of E kind pathname) user data
      = (Inl err, w3)"
    by (simp add: write_try_def)
  with h c show "Plist_write E w data kind pathname user =
          (Inl (PlistWriteError err),
           LOGGER_error (''Write failed for '' @ kind @ ''/'' @ pathname
                           @ '': '' @ str_exn err) w3)"
    by (simp add: Plist_write_def Let_def)
qed

theorem io_errors_wrapped_as_write_error_witness:
  "os_makedirs demo_env demo_world
      (os_path_dirname (filepath_of demo_env ''manifests'' ''site_default/x/y''))
     = (Inl (OSError ''ENOTDIR''), demo_world)
   \<and> Plist_new demo_env demo_world ''manifests'' ''site_default/x/y'' None None =
       (Inl (PlistWriteError (OSError ''ENOTDIR'')),
        LOGGER_error ''Create failed for manifests/site_default/x/y: ENOTDIR'' demo_world)
   \<and> Plist_write demo_env demo_world ''d'' ''manifests'' ''site_default/x/y'' None =
       (Inl (PlistWriteError (OSError ''ENOTDIR'')),
        LOGGER_error ''Create failed for manifests/site_default/x/y: ENOTDIR'' demo_world)
   \<and> open_w demo_env demo_world (filepath_of demo_env ''manifests'' ''site_default/x'')
     = (Inl (IOError ''ENOTDIR''), demo_world)
   \<and> Plist_new demo_env demo_world ''manifests'' ''site_default/x'' None None =
       (Inl (PlistWriteError (IOError ''ENOTDIR'')),
        LOGGER_error ''Create failed for manifests/site_default/x: ENOTDIR'' demo_world)
   \<and> Plist_write demo_env demo_world ''d'' ''manifests'' ''site_default/x'' None =
       (Inl (PlistWriteError (IOError ''ENOTDIR'')),
        LOGGER_error ''Write failed for manifests/site_default/x: ENOTDIR'' demo_world)
   \<and> fst (file_write disk_full_env
             (snd (open_w disk_full_env demo_world
                     (filepath_of disk_full_env ''manifests'' ''full'')))
             (filepath_of disk_full_env ''manifests'' ''full'')
             [''repo'', ''manifests'', ''full''] ''d'')
     = Inl (IOError ''ENOSPC'')
   \<and> fst (Plist_write disk_full_env demo_world ''d'' ''manifests'' ''full'' None)
     = Inl (PlistWriteError (IOError ''ENOSPC''))
   \<and> logged (snd (Plist_write disk_full_env demo_world ''d'' ''manifests'' ''full'' None))
     = [(ERROR, ''Write failed for manifests/full: ENOSPC'')]"
proof -
  let ?f1 = "filepath_of demo_env ''manifests'' ''site_default/x/y''"
  let ?f2 = "filepath_of demo_env ''manifests'' ''site_default/x''"
  let ?f3 = "filepath_of disk_full_env ''manifests'' ''full''"
  note T = io_errors_wrapped_as_write_error
  have e1: "\<not> os_path_exists (fs demo_world) ?f1" by code_simp
  have p1: "\<not> os_path_exists (fs demo_world) (os_path_dirname ?f1)" by code_simp
  have m1: "os_makedirs demo_env demo_world (os_path_dirname ?f1)
              = (Inl (OSError ''ENOTDIR''), demo_world)" by code_simp
  have A: "Plist_new demo_env demo_world ''manifests'' ''site_default/x/y'' None None =
       (Inl (PlistWriteError (OSError ''ENOTDIR'')),
        LOGGER_error ''Create failed for manifests/site_default/x/y: ENOTDIR'' demo_world)"
    using T [where E = demo_env and w = demo_world and kind = "''manifests''"
        and pathname = "''site_default/x/y''" and err = "OSError ''ENOTDIR''"
        and ?w1.0 = demo_world and user = None and plist_data = None, THEN conjunct1]
      e1 p1 m1 by simp
  have B: "Plist_write demo_env demo_world ''d'' ''manifests'' ''site_default/x/y'' None =
       (Inl (PlistWriteError (OSError ''ENOTDIR'')),
        LOGGER_error ''Create failed for manifests/site_default/x/y: ENOTDIR'' demo_world)"
    using T [where E = demo_env and w = demo_world and kind = "''manifests''"
        and pathname = "''site_default/x/y''" and err = "OSError ''ENOTDIR''"
        and ?w1.0 = demo_world and user = None and data = "''d''",
        THEN conjunct2, THEN conjunct2, THEN conjunct2, THEN conjunct1]
      p1 m1 by simp
  have e2: "\<not> os_path_exists (fs demo_world) ?f2" by code_simp
  have p2: "os_path_exists (fs demo_world) (os_path_dirname ?f2)" by code_simp
  have o2: "open_w demo_env demo_world ?f2 = (Inl (IOError ''ENOTDIR''), demo_world)"
    by code_simp
  have dp: "default_plist ''manifests'' \<noteq> None" by (simp add: default_plist_manifests)
  then obtain pl where pl: "default_plist ''manifests'' = Some pl" by blast
  have C: "Plist_new demo_env demo_world ''manifests'' ''site_default/x'' None None =
       (Inl (PlistWriteError (IOError ''ENOTDIR'')),
        LOGGER_error ''Create failed for manifests/site_default/x: ENOTDIR'' demo_world)"
    using T [where E = demo_env and w = demo_world and kind = "''manifests''"
        and pathname = "''site_default/x''" and err = "IOError ''ENOTDIR''"
        and ?w1.0 = demo_world and ?w2.0 = demo_world and user = None
        and plist_data = None and plist = pl, THEN conjunct2, THEN conjunct1]
      e2 p2 pl o2 by simp
  have D: "Plist_write demo_env demo_world ''d'' ''manifests'' ''site_default/x'' None =
       (Inl (PlistWriteError (IOError ''ENOTDIR'')),
        LOGGER_error ''Write failed for manifests/site_default/x: ENOTDIR'' demo_world)"
    using T [where E = demo_env and w = demo_world and kind = "''manifests''"
        and pathname = "''site_default/x''" and err = "IOError ''ENOTDIR''"
        and ?w1.0 = demo_world and ?w2.0 = demo_world and user = None and data = "''d''",
        THEN conjunct2, THEN conjunct2, THEN conjunct2, THEN conjunct2, THEN conjunct1]
      p2 o2 by simp
  let ?w2 = "snd (open_w disk_full_env demo_world ?f3)"
  let ?c = "[''repo'', ''manifests'', ''full'']"
  have p3: "os_path_exists (fs demo_world) (os_path_dirname ?f3)" by code_simp
  have o3: "fst (open_w disk_full_env demo_world ?f3) = Inr ?c" by code_simp
  then have o3': "open_w disk_full_env demo_world ?f3 = (Inr ?c, ?w2)"
    by (simp add: prod_eq_iff)
  have f3: "file_write disk_full_env ?w2 ?f3 ?c ''d'' = (Inl (IOError ''ENOSPC''), ?w2)"
    by code_simp
  have F: "Plist_write disk_full_env demo_world ''d'' ''manifests'' ''full'' None =
       (Inl (PlistWriteError (IOError ''ENOSPC'')),
        LOGGER_error (''Write failed for '' @ ''manifests'' @ ''/'' @ ''full'' @ '': ''
                        @ str_exn (IOError ''ENOSPC'')) ?w2)"
    using T [where E = disk_full_env and w = demo_world and kind = "''manifests''"
        and pathname = "''full''" and err = "IOError ''ENOSPC''"
        and ?w1.0 = demo_world and ?w2.0 = ?w2 and ?w3.0 = ?w2 and c = ?c
        and user = None and data = "''d''",
        THEN conjunct2, THEN conjunct2, THEN conjunct2, THEN conjunct2, THEN conjunct2]
      p3 o3' f3 by simp
  have l2: "logged ?w2 = []" by code_simp
  from F l2 have G: "fst (Plist_write disk_full_env demo_world ''d'' ''manifests'' ''full'' None)
       = Inl (PlistWriteError (IOError ''ENOSPC''))"
    and H: "logged (snd (Plist_write disk_full_env demo_world ''d'' ''manifests'' ''full'' None))
       = [(ERROR, ''Write failed for manifests/full: ENOSPC'')]"
    by (simp_all add: LOGGER_error_def)
  from f3 have f3'': "fst (file_write disk_full_env ?w2 ?f3 ?c ''d'') = Inl (IOError ''ENOSPC'')"
    by simp
  from m1 A B o2 C D f3'' G H show ?thesis by (intro conjI)
qed

section \<open>A failing recorder\<close>

text \<open>
  C8, as the code has it. The recorder is called inside the \<open>try\<close> block, after the
  file has been written or removed. When it raises, the mutation stays: the file holds
  the new bytes, or is gone. The error is not dropped: an \<open>IOError\<close> or \<open>OSError\<close> of the
  recorder is caught by the handler of the block, logged and raised as
  \<open>PlistWriteError\<close> (\<open>PlistDeleteError\<close> in \<open>delete\<close>); any other exception of the
  recorder leaves the method as it is.
\<close>

theorem recorder_failure_after_mutation:
  "((if os_path_exists (fs w) (os_path_dirname (filepath_of E kind pathname))
       then (Inr (), w)
       else os_makedirs E w (os_path_dirname (filepath_of E kind pathname))) = (Inr (), w1)
      \<and> open_w E w1 (filepath_of E kind pathname) = (Inr c, w2)
      \<and> file_write E w2 (filepath_of E kind pathname) c data = (Inr (), w3)
      \<and> truthy user \<and> truthy (GIT E)
      \<and> faults E (GitAdd (filepath_of E kind pathname)) = Some err
    \<longrightarrow> Plist_write E w data kind pathname user =
          (if is_IOError err \<or> is_OSError err
           then (Inl (PlistWriteError err),
                 LOGGER_error (''Write failed for '' @ kind @ ''/'' @ pathname
                                 @ '': '' @ str_exn err)
                   (LOGGER_info (''Wrote '' @ kind @ ''/'' @ pathname) w3))
           else (Inl err, LOGGER_info (''Wrote '' @ kind @ ''/'' @ pathname) w3))
        \<and> namei (fs w3) (filepath_of E kind pathname) = Some c
        \<and> lookup (fs w3) c = Some (File data))
   \<and> (\<not> os_path_exists (fs w) (filepath_of E kind pathname)
      \<and> (if os_path_exists (fs w) (os_path_dirname (filepath_of E kind pathname))
          then (Inr (), w)
          else os_makedirs E w (os_path_dirname (filepath_of E kind pathname))) = (Inr (), w1)
      \<and> (if truthy plist_data then plist_data else default_plist kind) = Some plist
      \<and> encode_utf8 (writePlistToString E plist) = Inr bytes
      \<and> open_w E w1 (filepath_of E kind pathname) = (Inr c, w2)
      \<and> file_write E w2 (filepath_of E kind pathname) c bytes = (Inr (), w3)
      \<and> truthy user \<and> truthy (GIT E)
      \<and> faults E (GitAdd (filepath_of E kind pathname)) = Some err
    \<longrightarrow> Plist_new E w kind pathname user plist_data =
          (if is_IOError err \<or> is_OSError err
           then (Inl (PlistWriteError err),
                 LOGGER_error (''Create failed for '' @ kind @ ''/'' @ pathname
                                 @ '': '' @ str_exn err)
                   (LOGGER_info (''Created '' @ kind @ ''/'' @ pathname) w3))
           else (Inl err, LOGGER_info (''Created '' @ kind @ ''/'' @ pathname) w3))
        \<and> namei (fs w3) (filepath_of E kind pathname) = Some c
        \<and> lookup (fs w3) c = Some (File bytes))
   \<and> (os_path_exists (fs w) (filepath_of E kind pathname)
      \<and> os_unlink E w (filepath_of E kind pathname) = (Inr (), w1)
      \<and> truthy user \<and> truthy (GIT E)
      \<and> faults E (GitDelete (filepath_of E kind pathname)) = Some err
    \<longrightarrow> Plist_delete E w kind pathname user =
          (if is_IOError err \<or> is_OSError err
           then (Inl (PlistDeleteError err),
                 LOGGER_error (''Delete failed for '' @ kind @ ''/'' @ pathname
                                 @ '': '' @ str_exn err)
                   (LOGGER_info (''Deleted '' @ kind @ ''/'' @ pathname) w1))
           else (Inl err, LOGGER_info (''Deleted '' @ kind @ ''/'' @ pathname) w1))
        \<and> \<not> os_path_exists (fs w1) (filepath_of E kind pathname))"
proof (intro conjI impI)
  assume h: "(if os_path_exists (fs w) (os_path_dirname (filepath_of E kind pathname))
       then (Inr (), w)
       else os_makedirs E w (os_path_dirname (filepath_of E kind pathname))) = (Inr (), w1)
      \<and> open_w E w1 (filepath_of E kind pathname) = (Inr c, w2)
      \<and> file_write E w2 (filepath_of E kind pathname) c data = (Inr (), w3)
      \<and> truthy user \<and> truthy (GIT E)
      \<and> faults E (GitAdd (filepath_of E kind pathname)) = Some err"
  then have "write_try E w1 kind pathname (filepath_of E kind pathname) user data =
      (Inl err, LOGGER_info (''Wrote '' @ kind @ ''/'' @ pathname) w3)"
    by (simp add: write_try_def MunkiGit_add_file_at_path_def Let_def)
  with h show "Plist_write E w data kind pathname user =
          (if is_IOError err \<or> is_OSError err
           then (Inl (PlistWriteError err),
                 LOGGER_error (''Write failed for '' @ kind @ ''/'' @ pathname
                                 @ '': '' @ str_exn err)
                   (LOGGER_info (''Wrote '' @ kind @ ''/'' @ pathname) w3))
           else (Inl err, LOGGER_info (''Wrote '' @ kind @ ''/'' @ pathname) w3))"
    by (simp add: Plist_write_def Let_def)
  from h have o: "open_w E w1 (filepath_of E kind pathname) = (Inr c, w2)"
    and f: "file_write E w2 (filepath_of E kind pathname) c data = (Inr (), w3)"
    by simp_all
  from written_file [OF o f]
  show "namei (fs w3) (filepath_of E kind pathname) = Some c"
    and "lookup (fs w3) c = Some (File data)" .
next
  assume h: "\<not> os_path_exists (fs w) (filepath_of E kind pathname)
      \<and> (if os_path_exists (fs w) (os_path_dirname (filepath_of E kind pathname))
          then (Inr (), w)
          else os_makedirs E w (os_path_dirname (filepath_of E kind pathname))) = (Inr (), w1)
      \<and> (if truthy plist_data then plist_data else default_plist kind) = Some plist
      \<and> encode_utf8 (writePlistToString E plist) = Inr bytes
      \<and> open_w E w1 (filepath_of E kind pathname) = (Inr c, w2)
      \<and> file_write E w2 (filepath_of E kind pathname) c bytes = (Inr (), w3)
      \<and> truthy user \<and> truthy (GIT E)
      \<and> faults E (GitAdd (filepath_of E kind pathname)) = Some err"
  then have "new_try E w1 kind pathname (filepath_of E kind pathname) user
      (writePlistToString E plist) =
      (Inl err, LOGGER_info (''Created '' @ kind @ ''/'' @ pathname) w3)"
    by (simp add: new_try_def MunkiGit_add_file_at_path_def Let_def)
  with h show "Plist_new E w kind pathname user plist_data =
          (if is_IOError err \<or> is_OSError err
           then (Inl (PlistWriteError err),
                 LOGGER_error (''Create failed for '' @ kind @ ''/'' @ pathname
                                 @ '': '' @ str_exn err)
                   (LOGGER_info (''Created '' @ kind @ ''/'' @ pathname) w3))
           else (Inl err, LOGGER_info (''Created '' @ kind @ ''/'' @ pathname) w3))"
    by (simp add: Plist_new_def Let_def)
  from h have o: "open_w E w1 (filepath_of E kind pathname) = (Inr c, w2)"
    and f: "file_write E w2 (filepath_of E kind pathname) c bytes = (Inr (), w3)"
    by simp_all
  from written_file [OF o f]
  show "namei (fs w3) (filepath_of E kind pathname) = Some c"
    and "lookup (fs w3) c = Some (File bytes)" .
next
  assume h: "os_path_exists (fs w) (filepath_of E kind pathname)
      \<and> os_unlink E w (filepath_of E kind pathname) = (Inr (), w1)
      \<and> truthy user \<and> truthy (GIT E)
      \<and> faults E (GitDelete (filepath_of E kind pathname)) = Some err"
  then have "delete_try E w kind pathname (filepath_of E kind pathname) user =
      (Inl err, LOGGER_info (''Deleted '' @ kind @ ''/'' @ pathname) w1)"
    by (simp add: delete_try_def MunkiGit_delete_file_at_path_def Let_def)
  with h show "Plist_delete E w kind pathname user =
          (if is_IOError err \<or> is_OSError err
           then (Inl (PlistDeleteError err),
                 LOGGER_error (''Delete failed for '' @ kind @ ''/'' @ pathname
                                 @ '': '' @ str_exn err)
                   (LOGGER_info (''Deleted '' @ kind @ ''/'' @ pathname) w1))
           else (Inl err, LOGGER_info (''Deleted '' @ kind @ ''/'' @ pathname) w1))"
    by (simp add: Plist_delete_def Let_def)
  from h have "os_unlink E w (filepath_of E kind pathname) = (Inr (), w1)" by simp
  then show "\<not> os_path_exists (fs w1) (filepath_of E kind pathname)"
    by (rule unlinked_file(2))
qed

theorem recorder_failure_after_mutation_witness:
  "fst (Plist_write git_fault_env demo_world ''d'' ''manifests'' ''new'' (Some ''alice''))
     = Inl (PlistWriteError (OSError ''ENOENT''))
   \<and> lookup (fs (snd (Plist_write git_fault_env demo_world ''d'' ''manifests'' ''new''
                          (Some ''alice''))))
        [''repo'', ''manifests'', ''new''] = Some (File ''d'')
   \<and> fst (Plist_delete git_fault_env demo_world ''manifests'' ''sub/m1'' (Some ''bob''))
     = Inl (OtherError ''GitError'')
   \<and> \<not> os_path_exists
          (fs (snd (Plist_delete git_fault_env demo_world ''manifests'' ''sub/m1'' (Some ''bob''))))
          (filepath_of git_fault_env ''manifests'' ''sub/m1'')"
proof -
  let ?E = git_fault_env
  let ?fp = "filepath_of ?E ''manifests'' ''new''"
  let ?c = "[''repo'', ''manifests'', ''new'']"
  let ?w2 = "snd (open_w ?E demo_world ?fp)"
  let ?w3 = "snd (file_write ?E ?w2 ?fp ?c ''d'')"
  note T = recorder_failure_after_mutation
  have p: "os_path_exists (fs demo_world) (os_path_dirname ?fp)" by code_simp
  have o: "fst (open_w ?E demo_world ?fp) = Inr ?c" by code_simp
  then have o': "open_w ?E demo_world ?fp = (Inr ?c, ?w2)" by (simp add: prod_eq_iff)
  have f: "fst (file_write ?E ?w2 ?fp ?c ''d'') = Inr ()" by code_simp
  then have f': "file_write ?E ?w2 ?fp ?c ''d'' = (Inr (), ?w3)" by (simp add: prod_eq_iff)
  have g: "truthy (GIT ?E)" by code_simp
  have e: "faults ?E (GitAdd ?fp) = Some (OSError ''ENOENT'')" by code_simp
  from T [where E = ?E and w = demo_world and kind = "''manifests''" and pathname = "''new''"
        and ?w1.0 = demo_world and ?w2.0 = ?w2 and ?w3.0 = ?w3 and c = ?c and data = "''d''"
        and user = "Some ''alice''" and err = "OSError ''ENOENT''", THEN conjunct1]
    p o' f' g e
  have W: "Plist_write ?E demo_world ''d'' ''manifests'' ''new'' (Some ''alice'') =
      (Inl (PlistWriteError (OSError ''ENOENT'')),
       LOGGER_error (''Write failed for '' @ ''manifests'' @ ''/'' @ ''new'' @ '': ''
                       @ str_exn (OSError ''ENOENT''))
         (LOGGER_info (''Wrote '' @ ''manifests'' @ ''/'' @ ''new'') ?w3))"
    and L: "lookup (fs ?w3) ?c = Some (File ''d'')"
    by simp_all
  let ?dp = "filepath_of ?E ''manifests'' ''sub/m1''"
  let ?v1 = "snd (os_unlink ?E demo_world ?dp)"
  have x: "os_path_exists (fs demo_world) ?dp" by code_simp
  have u: "fst (os_unlink ?E demo_world ?dp) = Inr ()" by code_simp
  then have u': "os_unlink ?E demo_world ?dp = (Inr (), ?v1)" by (simp add: prod_eq_iff)
  have e2: "faults ?E (GitDelete ?dp) = Some (OtherError ''GitError'')" by code_simp
  from T [where E = ?E and w = demo_world and kind = "''manifests''"
        and pathname = "''sub/m1''" and ?w1.0 = ?v1 and user = "Some ''bob''"
        and err = "OtherError ''GitError''", THEN conjunct2, THEN conjunct2]
    x u' g e2
  have D: "Plist_delete ?E demo_world ''manifests'' ''sub/m1'' (Some ''bob'') =
      (Inl (OtherError ''GitError''),
       LOGGER_info (''Deleted '' @ ''manifests'' @ ''/'' @ ''sub/m1'') ?v1)"
    and N: "\<not> os_path_exists (fs ?v1) ?dp"
    by simp_all
  from W L D N show ?thesis by simp
qed

theorem recorder_failure_after_mutation_counterexample:
  "fst (Plist_write demo_env demo_world ''d'' ''manifests'' ''new'' (Some ''alice'')) = Inr ()
   \<and> faults git_fault_env (GitAdd (filepath_of git_fault_env ''manifests'' ''new''))
       = Some (OSError ''ENOENT'')
   \<and> fst (Plist_write git_fault_env demo_world ''d'' ''manifests'' ''new'' (Some ''alice''))
       = Inl (PlistWriteError (OSError ''ENOENT''))
   \<and> lookup (fs (snd (Plist_write git_fault_env demo_world ''d'' ''manifests'' ''new''
                          (Some ''alice''))))
        [''repo'', ''manifests'', ''new''] = Some (File ''d'')"
proof -
  have a: "fst (Plist_write demo_env demo_world ''d'' ''manifests'' ''new'' (Some ''alice''))
             = Inr ()" by code_simp
  have b: "faults git_fault_env (GitAdd (filepath_of git_fault_env ''manifests'' ''new''))
       = Some (OSError ''ENOENT'')" by code_simp
  have c: "fst (Plist_write git_fault_env demo_world ''d'' ''manifests'' ''new'' (Some ''alice''))
       = Inl (PlistWriteError (OSError ''ENOENT''))" by code_simp
  have d: "lookup (fs (snd (Plist_write git_fault_env demo_world ''d'' ''manifests'' ''new''
                          (Some ''alice''))))
        [''repo'', ''manifests'', ''new''] = Some (File ''d'')" by code_simp
  from a b c d show ?thesis by (intro conjI)
qed

section \<open>Facts about path strings\<close>

lemma split_on_sep:
  "split_on c (a @ c # b) = split_on c a @ split_on c b"
proof (induction a)
  case Nil
  show ?case by simp
next
  case (Cons x a)
  obtain s ss where s: "split_on c a = s # ss"
    by (cases "split_on c a") (simp_all)
  with Cons show ?case by simp
qed

lemma split_on_no_sep: "c \<notin> set a \<Longrightarrow> split_on c a = [a]"
  by (induction a) auto

lemma valid_name_simps:
  assumes "valid_name s"
  shows "s \<noteq> []" and "CHR ''/'' \<notin> set s" and "s \<noteq> ''.''" and "s \<noteq> ''..''"
    and "hd s \<noteq> CHR ''/''" and "last s \<noteq> CHR ''/''"
  using assms by (auto simp: valid_name_def dest: hd_in_set last_in_set)

lemma split_joinp:
  "segs \<noteq> [] \<Longrightarrow> list_all valid_name segs \<Longrightarrow> split_on CHR ''/'' (joinp segs) = segs"
proof (induction segs rule: joinp.induct)
  case 1
  then show ?case by simp
next
  case (2 s)
  then show ?case by (simp add: split_on_no_sep valid_name_simps(2))
next
  case (3 s t ts)
  then show ?case by (simp add: split_on_sep split_on_no_sep valid_name_simps(2))
qed

lemma joinp_Cons: "joinp (s # ts) = s @ concat (map (\<lambda>d. CHR ''/'' # d) ts)"
  by (induction ts arbitrary: s) auto

lemma joinp_not_Nil: "segs \<noteq> [] \<Longrightarrow> list_all valid_name segs \<Longrightarrow> joinp segs \<noteq> []"
  by (cases segs) (auto simp: joinp_Cons valid_name_simps(1))

lemma hd_joinp:
  "segs \<noteq> [] \<Longrightarrow> list_all valid_name segs \<Longrightarrow> hd (joinp segs) \<noteq> CHR ''/''"
  by (cases segs) (auto simp: joinp_Cons valid_name_simps(1,5))

lemma joinp_snoc:
  "segs \<noteq> [] \<Longrightarrow> joinp (segs @ [f]) = joinp segs @ CHR ''/'' # f"
  by (induction segs rule: joinp.induct) auto

lemma last_joinp:
  "segs \<noteq> [] \<Longrightarrow> list_all valid_name segs \<Longrightarrow> last (joinp segs) \<noteq> CHR ''/''"
proof (induction segs rule: rev_induct)
  case Nil
  then show ?case by simp
next
  case (snoc f segs)
  then show ?case
    by (cases "segs = []") (auto simp: joinp_snoc valid_name_simps(1,6))
qed

lemma endswith_sep: "endswith s ''/'' = (s \<noteq> [] \<and> last s = CHR ''/'')"
proof (cases s rule: rev_cases)
  case Nil
  then show ?thesis by (simp add: endswith_def)
next
  case (snoc ys y)
  then show ?thesis by (auto simp: endswith_def)
qed

lemma startswith_sep: "startswith b ''/'' = (b \<noteq> [] \<and> hd b = CHR ''/'')"
  by (cases b) (auto simp: startswith_def)

lemma os_path_join_rel:
  assumes "b \<noteq> []" and "hd b \<noteq> CHR ''/''"
  shows "os_path_join a b =
           (if a = [] \<or> last a = CHR ''/'' then a @ b else a @ CHR ''/'' # b)"
  using assms by (auto simp: os_path_join_def startswith_sep endswith_sep)

section \<open>Facts about path resolution\<close>

lemma lookup_append:
  "lookup t (a @ b) = (case lookup t a of None \<Rightarrow> None | Some n \<Rightarrow> lookup n b)"
  by (induction t a rule: lookup.induct) (auto split: option.splits)

lemma lookup_Cons_is_Dir: "lookup n (s # ss) = Some m \<Longrightarrow> is_Dir n"
  by (cases n) simp_all

lemma lookup_append_is_dir: "lookup t (a @ s # ss) = Some m \<Longrightarrow> is_dir t a"
  by (cases "lookup t a")
     (auto simp: lookup_append is_dir_def split: node.splits dest: lookup_Cons_is_Dir)

lemma resolve_append:
  "resolve t cur (a @ b) =
     (case resolve t cur a of
        None \<Rightarrow> None
      | Some c \<Rightarrow> resolve t c b)"
  by (induction a arbitrary: cur) auto

lemma resolve_names:
  assumes "list_all valid_name segs" and "segs \<noteq> []"
    and "is_dir t cur" and "lookup t (cur @ segs) = Some m"
  shows "resolve t cur segs = Some (cur @ segs)"
  using assms
proof (induction segs arbitrary: cur)
  case Nil
  then show ?case by simp
next
  case (Cons s ss)
  from Cons.prems(1) have v: "s \<noteq> []" "s \<noteq> ''.''" "s \<noteq> ''..''"
    by (simp_all add: valid_name_simps)
  show ?case
  proof (cases "ss = []")
    case True
    with v Cons.prems(3) show ?thesis by simp
  next
    case False
    then obtain s' ss' where ss: "ss = s' # ss'" by (cases ss) auto
    from Cons.prems(4) have "lookup t ((cur @ [s]) @ s' # ss') = Some m" by (simp add: ss)
    then have d: "is_dir t (cur @ [s])" by (rule lookup_append_is_dir)
    from Cons.prems(1) have "list_all valid_name ss" by simp
    from Cons.IH [OF this False d] Cons.prems(4)
    have "resolve t (cur @ [s]) ss = Some ((cur @ [s]) @ ss)" by simp
    with v Cons.prems(3) show ?thesis by simp
  qed
qed

lemma resolve_snoc_empty:
  "resolve t cur (a @ [[]]) = Some c \<Longrightarrow> resolve t cur a = Some c \<and> is_dir t c"
  by (cases "resolve t cur a") (auto simp: resolve_append split: if_splits)

lemma namei_join:
  assumes n: "namei t kd = Some kc" and b: "b \<noteq> []" "hd b \<noteq> CHR ''/''"
  shows "namei t (os_path_join kd b) = resolve t kc (split_on CHR ''/'' b)"
proof -
  from n have kd: "kd \<noteq> []" and r: "resolve t [] (split_on CHR ''/'' kd) = Some kc"
    by (auto simp: namei_def split: if_splits)
  show ?thesis
  proof (cases "last kd = CHR ''/''")
    case True
    with kd obtain kd' where kd': "kd = kd' @ CHR ''/'' # []"
      by (cases kd rule: rev_cases) auto
    from r have "resolve t [] (split_on CHR ''/'' kd' @ [[]]) = Some kc"
      by (simp add: kd' split_on_sep)
    then have r': "resolve t [] (split_on CHR ''/'' kd') = Some kc"
      by (auto dest: resolve_snoc_empty)
    have "os_path_join kd b = kd' @ CHR ''/'' # b"
      using b kd True by (simp add: os_path_join_rel kd')
    then show ?thesis
      by (simp add: namei_def split_on_sep resolve_append r')
  next
    case False
    have "os_path_join kd b = kd @ CHR ''/'' # b"
      using b kd False by (simp add: os_path_join_rel)
    then show ?thesis
      by (simp add: namei_def split_on_sep resolve_append r)
  qed
qed

lemma exists_under:
  assumes n: "namei t kd = Some kc" and d: "is_dir t kc"
    and v: "list_all valid_name segs" and ne: "segs \<noteq> []"
    and l: "lookup t (kc @ segs) = Some m"
  shows "os_path_exists t (os_path_join kd (joinp segs))"
proof -
  have "namei t (os_path_join kd (joinp segs)) = resolve t kc (split_on CHR ''/'' (joinp segs))"
    by (rule namei_join [OF n joinp_not_Nil [OF ne v] hd_joinp [OF ne v]])
  also have "\<dots> = resolve t kc segs" by (simp add: split_joinp [OF ne v])
  also have "\<dots> = Some (kc @ segs)" by (rule resolve_names [OF v ne d l])
  finally show ?thesis using l by (simp add: os_path_exists_def)
qed

section \<open>When new succeeds\<close>

lemma is_dir_butlast: "is_dir t cur \<Longrightarrow> is_dir t (butlast cur)"
proof (cases cur rule: rev_cases)
  case Nil
  then show "is_dir t cur \<Longrightarrow> is_dir t (butlast cur)" by simp
next
  case (snoc ys y)
  assume "is_dir t cur"
  then obtain m where "lookup t (ys @ y # []) = Some m"
    by (auto simp: is_dir_def snoc split: option.splits)
  then have "is_dir t ys" by (rule lookup_append_is_dir)
  then show "is_dir t (butlast cur)" by (simp add: snoc)
qed

lemma resolve_parent:
  "resolve t cur segs = Some c \<Longrightarrow> is_dir t cur \<or> (cur \<noteq> [] \<and> is_dir t (butlast cur))
     \<Longrightarrow> is_dir t c \<or> (c \<noteq> [] \<and> is_dir t (butlast c))"
proof (induction segs arbitrary: cur)
  case Nil
  then show ?case by simp
next
  case (Cons s ss)
  from Cons.prems(1) have d: "is_dir t cur" by (rule resolve_Some_is_dir)
  show ?case
  proof (cases "s = [] \<or> s = ''.''")
    case True
    with Cons.prems(1) d have "resolve t cur ss = Some c" by auto
    from Cons.IH [OF this] d show ?thesis by simp
  next
    case False
    show ?thesis
    proof (cases "s = ''..''")
      case True
      with Cons.prems(1) d have "resolve t (butlast cur) ss = Some c" by simp
      from Cons.IH [OF this] is_dir_butlast [OF d] show ?thesis by simp
    next
      case n: False
      with False Cons.prems(1) d have "resolve t (cur @ [s]) ss = Some c" by simp
      from Cons.IH [OF this] d show ?thesis by simp
    qed
  qed
qed

lemma namei_parent:
  assumes "namei t p = Some c"
  shows "is_dir t c \<or> (c \<noteq> [] \<and> is_dir t (butlast c))"
proof -
  from assms have "resolve t [] (split_on CHR ''/'' p) = Some c"
    by (simp add: namei_def split: if_splits)
  moreover from namei_Some_root_dir [OF assms] have "is_dir t []" .
  ultimately show ?thesis by (auto dest: resolve_parent)
qed

lemma put_succeeds:
  "c \<noteq> [] \<Longrightarrow> is_dir t (butlast c) \<Longrightarrow> \<exists>t'. put t c n = Some t'"
proof (induction t c n rule: put.induct)
  case (1 t n)
  then show ?case by simp
next
  case (2 d s ss n)
  then show ?case by (cases ss) (simp_all add: is_dir_Nil is_dir_File_Cons)
next
  case (3 es s ss n)
  show ?case
  proof (cases "ss = []")
    case True
    then show ?thesis by (cases "map_of es s") simp_all
  next
    case False
    then have bl: "butlast (s # ss) = s # butlast ss" by simp
    from "3.prems"(2) have "is_dir (Dir es) (s # butlast ss)" by (simp only: bl)
    then obtain ch where ch: "map_of es s = Some ch" and d: "is_dir ch (butlast ss)"
      by (auto simp: is_dir_Dir_Cons split: option.splits)
    from "3.IH" [OF ch False d] obtain ch' where "put ch ss n = Some ch'" by blast
    with ch show ?thesis by simp
  qed
qed

lemma open_w_succeeds:
  assumes "faults E (OpenW p) = None" and n: "namei (fs w) p = Some c"
    and nd: "\<not> is_dir (fs w) c"
  shows "\<exists>w2. open_w E w p = (Inr c, w2)"
proof -
  from namei_parent [OF n] nd have "c \<noteq> []" "is_dir (fs w) (butlast c)" by auto
  from put_succeeds [OF this] obtain t' where "put (fs w) c (File []) = Some t'" by blast
  with assms show ?thesis by (simp add: open_w_def)
qed

lemma file_write_succeeds:
  assumes o: "open_w E w p = (Inr c, w2)" and f: "faults E (FileWrite p) = None"
  shows "\<exists>w3. file_write E w2 p c bytes = (Inr (), w3)"
proof -
  note o' = open_w_Inr [OF o]
  from namei_parent [OF o'(1)] o'(2) have c: "c \<noteq> []" and d: "is_dir (fs w) (butlast c)"
    by auto
  have "is_dir (fs w2) (butlast c) = is_dir (fs w) (butlast c)"
    using is_dir_put_file [OF o'(3) _ o'(2)] by simp
  with d have "is_dir (fs w2) (butlast c)" by simp
  from put_succeeds [OF c this] obtain t' where "put (fs w2) c (File bytes) = Some t'"
    by blast
  with f show ?thesis by (simp add: file_write_def)
qed

lemma new_try_succeeds:
  assumes n: "namei (fs w) fp = Some c" and nd: "\<not> is_dir (fs w) c"
    and a: "encode_utf8 data = Inr data"
    and f1: "faults E (OpenW fp) = None" and f2: "faults E (FileWrite fp) = None"
    and f3: "faults E (GitAdd fp) = None"
  shows "\<exists>w'. new_try E w kind pathname fp user data = (Inr (), w')"
proof -
  from open_w_succeeds [OF f1 n nd] obtain w2 where o: "open_w E w fp = (Inr c, w2)" by blast
  from file_write_succeeds [OF o f2] obtain w3 where
    f: "file_write E w2 fp c data = (Inr (), w3)" by blast
  show ?thesis
    by (simp add: new_try_def o a f f3 MunkiGit_add_file_at_path_def Let_def)
qed

lemma Plist_new_succeeds:
  assumes ne: "\<not> os_path_exists (fs w) (filepath_of E kind pathname)"
    and st: "(if os_path_exists (fs w) (os_path_dirname (filepath_of E kind pathname))
              then (Inr (), w)
              else os_makedirs E w (os_path_dirname (filepath_of E kind pathname)))
             = (Inr (), w1)"
    and n: "namei (fs w1) (filepath_of E kind pathname) = Some c"
    and nd: "\<not> is_dir (fs w1) c"
    and pl: "(if truthy pd then pd else default_plist kind) = Some plist"
    and a: "encode_utf8 (writePlistToString E plist) = Inr (writePlistToString E plist)"
    and f1: "faults E (OpenW (filepath_of E kind pathname)) = None"
    and f2: "faults E (FileWrite (filepath_of E kind pathname)) = None"
    and f3: "faults E (GitAdd (filepath_of E kind pathname)) = None"
  shows "\<exists>w'. Plist_new E w kind pathname user pd = (Inr (writePlistToString E plist), w')"
proof -
  from new_try_succeeds [OF n nd a f1 f2 f3] obtain w' where
    "new_try E w1 kind pathname (filepath_of E kind pathname) user
       (writePlistToString E plist) = (Inr (), w')"
    by blast
  with ne st pl show ?thesis by (simp add: Plist_new_def Let_def)
qed

section \<open>The default records\<close>

text \<open>
  C6. With no record, \<open>new\<close> makes up for \<open>manifests\<close> the record with exactly the six
  keys \<open>catalogs\<close>, \<open>included_manifests\<close>, \<open>managed_installs\<close>, \<open>managed_uninstalls\<close>,
  \<open>managed_updates\<close> and \<open>optional_installs\<close>, each bound to the empty sequence, and for
  \<open>pkgsinfo\<close> the record with exactly the five keys \<open>name\<close>, \<open>display_name\<close>,
  \<open>description\<close>, \<open>version\<close> and \<open>catalogs\<close>, where \<open>catalogs\<close> is the one-element
  sequence \<open>["development"]\<close>. The call succeeds whenever the file is not there, the
  parent directories are there or can be made, the path then names a place for a file,
  the serialisation is ASCII and no call is hit by a fault: it returns the
  serialisation of that record and leaves it in the file, and read back through a
  codec that round-trips the record, the file gives the record again. And whenever the
  call succeeds, this is what it has done.
\<close>

theorem new_default_skeleton:
  "default_plist ''manifests'' =
     Some [(''catalogs'', PArray []), (''included_manifests'', PArray []),
           (''managed_installs'', PArray []), (''managed_uninstalls'', PArray []),
           (''managed_updates'', PArray []), (''optional_installs'', PArray [])]
   \<and> default_plist ''pkgsinfo'' =
     Some [(''name'', PString ''ProductName''),
           (''display_name'', PString ''Display Name''),
           (''description'', PString ''Product description''),
           (''version'', PString ''1.0''),
           (''catalogs'', PArray [PString ''development''])]
   \<and> (\<not> os_path_exists (fs w) (filepath_of E kind pathname)
       \<and> (if os_path_exists (fs w) (os_path_dirname (filepath_of E kind pathname))
           then (Inr (), w)
           else os_makedirs E w (os_path_dirname (filepath_of E kind pathname))) = (Inr (), w1)
       \<and> namei (fs w1) (filepath_of E kind pathname) = Some c
       \<and> \<not> is_dir (fs w1) c
       \<and> default_plist kind = Some plist
       \<and> encode_utf8 (writePlistToString E plist) = Inr (writePlistToString E plist)
       \<and> faults E (OpenW (filepath_of E kind pathname)) = None
       \<and> faults E (FileWrite (filepath_of E kind pathname)) = None
       \<and> faults E (GitAdd (filepath_of E kind pathname)) = None
      \<longrightarrow> (\<exists>w2. Plist_new E w kind pathname user None = (Inr (writePlistToString E plist), w2)
             \<and> (\<exists>c2. namei (fs w2) (filepath_of E kind pathname) = Some c2
                      \<and> lookup (fs w2) c2 = Some (File (writePlistToString E plist)))
             \<and> (parsePlist E (writePlistToString E plist) = Inr plist
                  \<and> faults E (OpenR (filepath_of E kind pathname)) = None
                 \<longrightarrow> Plist_read E w2 kind pathname = (Inr plist, w2))))
   \<and> (Plist_new E w kind pathname user None = (Inr data, w') \<longrightarrow>
        (\<exists>plist. default_plist kind = Some plist
           \<and> data = writePlistToString E plist
           \<and> (\<exists>c. namei (fs w') (filepath_of E kind pathname) = Some c
                    \<and> lookup (fs w') c = Some (File data))
           \<and> (parsePlist E data = Inr plist
                \<and> faults E (OpenR (filepath_of E kind pathname)) = None
               \<longrightarrow> Plist_read E w' kind pathname = (Inr plist, w'))))"
proof -
  have succ: "\<exists>w2. Plist_new E w kind pathname user None = (Inr (writePlistToString E plist), w2)
             \<and> (\<exists>c2. namei (fs w2) (filepath_of E kind pathname) = Some c2
                      \<and> lookup (fs w2) c2 = Some (File (writePlistToString E plist)))
             \<and> (parsePlist E (writePlistToString E plist) = Inr plist
                  \<and> faults E (OpenR (filepath_of E kind pathname)) = None
                 \<longrightarrow> Plist_read E w2 kind pathname = (Inr plist, w2))"
    if h: "\<not> os_path_exists (fs w) (filepath_of E kind pathname)
       \<and> (if os_path_exists (fs w) (os_path_dirname (filepath_of E kind pathname))
           then (Inr (), w)
           else os_makedirs E w (os_path_dirname (filepath_of E kind pathname))) = (Inr (), w1)
       \<and> namei (fs w1) (filepath_of E kind pathname) = Some c
       \<and> \<not> is_dir (fs w1) c
       \<and> default_plist kind = Some plist
       \<and> encode_utf8 (writePlistToString E plist) = Inr (writePlistToString E plist)
       \<and> faults E (OpenW (filepath_of E kind pathname)) = None
       \<and> faults E (FileWrite (filepath_of E kind pathname)) = None
       \<and> faults E (GitAdd (filepath_of E kind pathname)) = None"
  proof -
    from h have pl: "(if truthy None then None else default_plist kind) = Some plist" by simp
    from h have h1: "\<not> os_path_exists (fs w) (filepath_of E kind pathname)"
      and h2: "(if os_path_exists (fs w) (os_path_dirname (filepath_of E kind pathname))
           then (Inr (), w)
           else os_makedirs E w (os_path_dirname (filepath_of E kind pathname))) = (Inr (), w1)"
      and h3: "namei (fs w1) (filepath_of E kind pathname) = Some c"
      and h4: "\<not> is_dir (fs w1) c"
      and h5: "encode_utf8 (writePlistToString E plist) = Inr (writePlistToString E plist)"
      and h6: "faults E (OpenW (filepath_of E kind pathname)) = None"
      and h7: "faults E (FileWrite (filepath_of E kind pathname)) = None"
      and h8: "faults E (GitAdd (filepath_of E kind pathname)) = None"
      by simp_all
    from Plist_new_succeeds [OF h1 h2 h3 h4 pl h5 h6 h7 h8] obtain w2 where
      n: "Plist_new E w kind pathname user None = (Inr (writePlistToString E plist), w2)"
      by blast
    from Plist_new_Inr [OF n]
    have c: "\<exists>c2. namei (fs w2) (filepath_of E kind pathname) = Some c2
                 \<and> lookup (fs w2) c2 = Some (File (writePlistToString E plist))"
      by auto
    have r: "parsePlist E (writePlistToString E plist) = Inr plist
                  \<and> faults E (OpenR (filepath_of E kind pathname)) = None
                 \<longrightarrow> Plist_read E w2 kind pathname = (Inr plist, w2)"
      using new_then_read [OF n] by simp
    show ?thesis by (rule exI [of _ w2]) (intro conjI n c r)
  qed
  have third: "\<exists>plist. default_plist kind = Some plist
           \<and> data = writePlistToString E plist
           \<and> (\<exists>c. namei (fs w') (filepath_of E kind pathname) = Some c
                    \<and> lookup (fs w') c = Some (File data))
           \<and> (parsePlist E data = Inr plist
                \<and> faults E (OpenR (filepath_of E kind pathname)) = None
               \<longrightarrow> Plist_read E w' kind pathname = (Inr plist, w'))"
    if n: "Plist_new E w kind pathname user None = (Inr data, w')"
  proof -
    from Plist_new_Inr [OF n] obtain plist where
      pl: "default_plist kind = Some plist" and d: "data = writePlistToString E plist"
      and c: "\<exists>c. namei (fs w') (filepath_of E kind pathname) = Some c
                  \<and> lookup (fs w') c = Some (File data)"
      by auto
    have r: "parsePlist E data = Inr plist
                \<and> faults E (OpenR (filepath_of E kind pathname)) = None
               \<longrightarrow> Plist_read E w' kind pathname = (Inr plist, w')"
      using new_then_read [OF n] by simp
    show ?thesis
      by (rule exI [of _ plist]) (intro conjI pl d c r)
  qed
  show ?thesis
    by (intro conjI impI default_plist_manifests default_plist_pkgsinfo)
       (erule succ, erule third)
qed

theorem new_default_skeleton_witness:
  "fst (Plist_new demo_env demo_world ''manifests'' ''newdir/site'' (Some ''alice'') None)
     = Inr (demo_writePlistToString demo_manifest)
   \<and> Plist_read demo_env
        (snd (Plist_new demo_env demo_world ''manifests'' ''newdir/site'' (Some ''alice'') None))
        ''manifests'' ''newdir/site''
      = (Inr demo_manifest,
         snd (Plist_new demo_env demo_world ''manifests'' ''newdir/site'' (Some ''alice'') None))
   \<and> fst (Plist_new demo_env demo_world ''pkgsinfo'' ''foo/bar.plist'' (Some ''alice'') None)
     = Inr (demo_writePlistToString demo_pkginfo)
   \<and> Plist_read demo_env
        (snd (Plist_new demo_env demo_world ''pkgsinfo'' ''foo/bar.plist'' (Some ''alice'') None))
        ''pkgsinfo'' ''foo/bar.plist''
      = (Inr demo_pkginfo,
         snd (Plist_new demo_env demo_world ''pkgsinfo'' ''foo/bar.plist'' (Some ''alice'') None))"
proof -
  note T = new_default_skeleton
  have nf: "\<And>call. faults demo_env call = None" by (simp add: demo_env_def no_faults_def)
  have ser: "writePlistToString demo_env = demo_writePlistToString" by (simp add: demo_env_def)
  have M: "fst (Plist_new demo_env demo_world ''manifests'' ''newdir/site'' (Some ''alice'') None)
             = Inr (demo_writePlistToString demo_manifest)
           \<and> Plist_read demo_env
                (snd (Plist_new demo_env demo_world ''manifests'' ''newdir/site''
                        (Some ''alice'') None))
                ''manifests'' ''newdir/site''
              = (Inr demo_manifest,
                 snd (Plist_new demo_env demo_world ''manifests'' ''newdir/site''
                        (Some ''alice'') None))"
  proof -
    let ?fp = "filepath_of demo_env ''manifests'' ''newdir/site''"
    let ?m = "os_makedirs demo_env demo_world (os_path_dirname ?fp)"
    let ?c = "[''repo'', ''manifests'', ''newdir'', ''site'']"
    have a: "\<not> os_path_exists (fs demo_world) ?fp" by code_simp
    have b: "\<not> os_path_exists (fs demo_world) (os_path_dirname ?fp)" by code_simp
    have c: "fst ?m = Inr ()" by code_simp
    then have c': "?m = (Inr (), snd ?m)" by (simp add: prod_eq_iff)
    from b c' have s: "(if os_path_exists (fs demo_world) (os_path_dirname ?fp)
             then (Inr (), demo_world) else ?m) = (Inr (), snd ?m)" by simp
    have n: "namei (fs (snd ?m)) ?fp = Some ?c" by code_simp
    have nd: "\<not> is_dir (fs (snd ?m)) ?c" by code_simp
    have pl: "default_plist ''manifests'' = Some demo_manifest"
      by (simp add: default_plist_manifests demo_manifest_def)
    have e: "encode_utf8 (writePlistToString demo_env demo_manifest)
               = Inr (writePlistToString demo_env demo_manifest)" by code_simp
    have p: "parsePlist demo_env (writePlistToString demo_env demo_manifest) = Inr demo_manifest"
      by code_simp
    from T [where E = demo_env and w = demo_world and kind = "''manifests''"
          and pathname = "''newdir/site''" and user = "Some ''alice''" and ?w1.0 = "snd ?m"
          and c = ?c and plist = demo_manifest,
          THEN conjunct2, THEN conjunct2, THEN conjunct1, rule_format,
          OF conjI [OF a conjI [OF s conjI [OF n conjI [OF nd conjI [OF pl conjI [OF e
             conjI [OF nf conjI [OF nf nf]]]]]]]]]
    obtain w2 where
      r: "Plist_new demo_env demo_world ''manifests'' ''newdir/site'' (Some ''alice'') None
            = (Inr (writePlistToString demo_env demo_manifest), w2)"
      and rd: "parsePlist demo_env (writePlistToString demo_env demo_manifest) = Inr demo_manifest
                 \<and> faults demo_env (OpenR ?fp) = None
               \<longrightarrow> Plist_read demo_env w2 ''manifests'' ''newdir/site'' = (Inr demo_manifest, w2)"
      by blast
    from rd p nf have "Plist_read demo_env w2 ''manifests'' ''newdir/site''
                         = (Inr demo_manifest, w2)" by simp
    with r show ?thesis by (simp add: ser)
  qed
  have P: "fst (Plist_new demo_env demo_world ''pkgsinfo'' ''foo/bar.plist'' (Some ''alice'') None)
             = Inr (demo_writePlistToString demo_pkginfo)
           \<and> Plist_read demo_env
                (snd (Plist_new demo_env demo_world ''pkgsinfo'' ''foo/bar.plist''
                        (Some ''alice'') None))
                ''pkgsinfo'' ''foo/bar.plist''
              = (Inr demo_pkginfo,
                 snd (Plist_new demo_env demo_world ''pkgsinfo'' ''foo/bar.plist''
                        (Some ''alice'') None))"
  proof -
    let ?fp = "filepath_of demo_env ''pkgsinfo'' ''foo/bar.plist''"
    let ?m = "os_makedirs demo_env demo_world (os_path_dirname ?fp)"
    let ?c = "[''repo'', ''pkgsinfo'', ''foo'', ''bar.plist'']"
    have a: "\<not> os_path_exists (fs demo_world) ?fp" by code_simp
    have b: "\<not> os_path_exists (fs demo_world) (os_path_dirname ?fp)" by code_simp
    have c: "fst ?m = Inr ()" by code_simp
    then have c': "?m = (Inr (), snd ?m)" by (simp add: prod_eq_iff)
    from b c' have s: "(if os_path_exists (fs demo_world) (os_path_dirname ?fp)
             then (Inr (), demo_world) else ?m) = (Inr (), snd ?m)" by simp
    have n: "namei (fs (snd ?m)) ?fp = Some ?c" by code_simp
    have nd: "\<not> is_dir (fs (snd ?m)) ?c" by code_simp
    have pl: "default_plist ''pkgsinfo'' = Some demo_pkginfo"
      by (simp add: default_plist_pkgsinfo demo_pkginfo_def)
    have e: "encode_utf8 (writePlistToString demo_env demo_pkginfo)
               = Inr (writePlistToString demo_env demo_pkginfo)" by code_simp
    have p: "parsePlist demo_env (writePlistToString demo_env demo_pkginfo) = Inr demo_pkginfo"
      by code_simp
    from T [where E = demo_env and w = demo_world and kind = "''pkgsinfo''"
          and pathname = "''foo/bar.plist''" and user = "Some ''alice''" and ?w1.0 = "snd ?m"
          and c = ?c and plist = demo_pkginfo,
          THEN conjunct2, THEN conjunct2, THEN conjunct1, rule_format,
          OF conjI [OF a conjI [OF s conjI [OF n conjI [OF nd conjI [OF pl conjI [OF e
             conjI [OF nf conjI [OF nf nf]]]]]]]]]
    obtain w2 where
      r: "Plist_new demo_env demo_world ''pkgsinfo'' ''foo/bar.plist'' (Some ''alice'') None
            = (Inr (writePlistToString demo_env demo_pkginfo), w2)"
      and rd: "parsePlist demo_env (writePlistToString demo_env demo_pkginfo) = Inr demo_pkginfo
                 \<and> faults demo_env (OpenR ?fp) = None
               \<longrightarrow> Plist_read demo_env w2 ''pkgsinfo'' ''foo/bar.plist'' = (Inr demo_pkginfo, w2)"
      by blast
    from rd p nf have "Plist_read demo_env w2 ''pkgsinfo'' ''foo/bar.plist''
                         = (Inr demo_pkginfo, w2)" by simp
    with r show ?thesis by (simp add: ser)
  qed
  from M P show ?thesis by (intro conjI) simp_all
qed

section \<open>An empty record\<close>

text \<open>
  C9. \<open>new\<close> with an empty record behaves exactly as \<open>new\<close> with no record: the two
  calls return the same result and leave the same world, for every kind. For
  \<open>manifests\<close> and for \<open>pkgsinfo\<close> the record \<open>new\<close> makes up is not empty, so it is not
  the caller's record. The call with the empty record succeeds whenever the file is not
  there, the parent directories are there or can be made, the path then names a place
  for a file, the serialisation of the made-up record is ASCII and no call is hit by a
  fault: it returns the serialisation of the made-up record and leaves it in the file.
  And whenever the call succeeds, this is what it has done.
\<close>

theorem new_empty_record_as_omitted:
  "Plist_new E w kind pathname user (Some []) = Plist_new E w kind pathname user None
   \<and> (kind = ''manifests'' \<or> kind = ''pkgsinfo''
      \<longrightarrow> (\<exists>plist. default_plist kind = Some plist \<and> plist \<noteq> []))
   \<and> (\<not> os_path_exists (fs w) (filepath_of E kind pathname)
       \<and> (if os_path_exists (fs w) (os_path_dirname (filepath_of E kind pathname))
           then (Inr (), w)
           else os_makedirs E w (os_path_dirname (filepath_of E kind pathname))) = (Inr (), w1)
       \<and> namei (fs w1) (filepath_of E kind pathname) = Some c
       \<and> \<not> is_dir (fs w1) c
       \<and> default_plist kind = Some plist
       \<and> encode_utf8 (writePlistToString E plist) = Inr (writePlistToString E plist)
       \<and> faults E (OpenW (filepath_of E kind pathname)) = None
       \<and> faults E (FileWrite (filepath_of E kind pathname)) = None
       \<and> faults E (GitAdd (filepath_of E kind pathname)) = None
      \<longrightarrow> (\<exists>w2. Plist_new E w kind pathname user (Some [])
                   = (Inr (writePlistToString E plist), w2)
             \<and> (\<exists>c2. namei (fs w2) (filepath_of E kind pathname) = Some c2
                      \<and> lookup (fs w2) c2 = Some (File (writePlistToString E plist)))))
   \<and> (Plist_new E w kind pathname user (Some []) = (Inr data, w') \<longrightarrow>
        (\<exists>plist. default_plist kind = Some plist
           \<and> data = writePlistToString E plist
           \<and> (\<exists>c. namei (fs w') (filepath_of E kind pathname) = Some c
                    \<and> lookup (fs w') c = Some (File data))))"
proof -
  have eq: "Plist_new E w kind pathname user (Some []) = Plist_new E w kind pathname user None"
    by (simp add: Plist_new_def)
  have ne: "\<exists>plist. default_plist kind = Some plist \<and> plist \<noteq> []"
    if "kind = ''manifests'' \<or> kind = ''pkgsinfo''"
    using that by (auto simp: default_plist_def)
  have succ: "\<exists>w2. Plist_new E w kind pathname user (Some [])
                   = (Inr (writePlistToString E plist), w2)
             \<and> (\<exists>c2. namei (fs w2) (filepath_of E kind pathname) = Some c2
                      \<and> lookup (fs w2) c2 = Some (File (writePlistToString E plist)))"
    if h: "\<not> os_path_exists (fs w) (filepath_of E kind pathname)
       \<and> (if os_path_exists (fs w) (os_path_dirname (filepath_of E kind pathname))
           then (Inr (), w)
           else os_makedirs E w (os_path_dirname (filepath_of E kind pathname))) = (Inr (), w1)
       \<and> namei (fs w1) (filepath_of E kind pathname) = Some c
       \<and> \<not> is_dir (fs w1) c
       \<and> default_plist kind = Some plist
       \<and> encode_utf8 (writePlistToString E plist) = Inr (writePlistToString E plist)
       \<and> faults E (OpenW (filepath_of E kind pathname)) = None
       \<and> faults E (FileWrite (filepath_of E kind pathname)) = None
       \<and> faults E (GitAdd (filepath_of E kind pathname)) = None"
  proof -
    from h have pl: "(if truthy (Some []) then Some [] else default_plist kind) = Some plist"
      by simp
    from h have h1: "\<not> os_path_exists (fs w) (filepath_of E kind pathname)"
      and h2: "(if os_path_exists (fs w) (os_path_dirname (filepath_of E kind pathname))
           then (Inr (), w)
           else os_makedirs E w (os_path_dirname (filepath_of E kind pathname))) = (Inr (), w1)"
      and h3: "namei (fs w1) (filepath_of E kind pathname) = Some c"
      and h4: "\<not> is_dir (fs w1) c"
      and h5: "encode_utf8 (writePlistToString E plist) = Inr (writePlistToString E plist)"
      and h6: "faults E (OpenW (filepath_of E kind pathname)) = None"
      and h7: "faults E (FileWrite (filepath_of E kind pathname)) = None"
      and h8: "faults E (GitAdd (filepath_of E kind pathname)) = None"
      by simp_all
    from Plist_new_succeeds [OF h1 h2 h3 h4 pl h5 h6 h7 h8] obtain w2 where
      n: "Plist_new E w kind pathname user (Some []) = (Inr (writePlistToString E plist), w2)"
      by blast
    from Plist_new_Inr [OF n]
    have c: "\<exists>c2. namei (fs w2) (filepath_of E kind pathname) = Some c2
                 \<and> lookup (fs w2) c2 = Some (File (writePlistToString E plist))"
      by auto
    show ?thesis by (rule exI [of _ w2]) (intro conjI n c)
  qed
  have last: "\<exists>plist. default_plist kind = Some plist
           \<and> data = writePlistToString E plist
           \<and> (\<exists>c. namei (fs w') (filepath_of E kind pathname) = Some c
                    \<and> lookup (fs w') c = Some (File data))"
    if n: "Plist_new E w kind pathname user (Some []) = (Inr data, w')"
    using Plist_new_Inr [OF n] by simp
  show ?thesis
    by (intro conjI impI eq) (erule ne, erule succ, erule last)
qed

theorem new_empty_record_as_omitted_witness:
  "Plist_new demo_env demo_world ''manifests'' ''newdir/site'' (Some ''alice'') (Some [])
     = Plist_new demo_env demo_world ''manifests'' ''newdir/site'' (Some ''alice'') None
   \<and> fst (Plist_new demo_env demo_world ''manifests'' ''newdir/site'' (Some ''alice'') (Some []))
     = Inr (demo_writePlistToString demo_manifest)
   \<and> demo_writePlistToString demo_manifest \<noteq> demo_writePlistToString []
   \<and> (\<exists>c. namei (fs (snd (Plist_new demo_env demo_world ''manifests'' ''newdir/site''
                              (Some ''alice'') (Some []))))
               (filepath_of demo_env ''manifests'' ''newdir/site'') = Some c
          \<and> lookup (fs (snd (Plist_new demo_env demo_world ''manifests'' ''newdir/site''
                                (Some ''alice'') (Some [])))) c
            = Some (File (demo_writePlistToString demo_manifest)))
   \<and> Plist_new demo_env demo_world ''pkgsinfo'' ''foo/bar.plist'' (Some ''alice'') (Some [])
     = Plist_new demo_env demo_world ''pkgsinfo'' ''foo/bar.plist'' (Some ''alice'') None
   \<and> fst (Plist_new demo_env demo_world ''pkgsinfo'' ''foo/bar.plist'' (Some ''alice'') (Some []))
     = Inr (demo_writePlistToString demo_pkginfo)
   \<and> demo_writePlistToString demo_pkginfo \<noteq> demo_writePlistToString []
   \<and> (\<exists>c. namei (fs (snd (Plist_new demo_env demo_world ''pkgsinfo'' ''foo/bar.plist''
                              (Some ''alice'') (Some []))))
               (filepath_of demo_env ''pkgsinfo'' ''foo/bar.plist'') = Some c
          \<and> lookup (fs (snd (Plist_new demo_env demo_world ''pkgsinfo'' ''foo/bar.plist''
                                (Some ''alice'') (Some [])))) c
            = Some (File (demo_writePlistToString demo_pkginfo)))"
proof -
  note T = new_empty_record_as_omitted
  have nf: "\<And>call. faults demo_env call = None" by (simp add: demo_env_def no_faults_def)
  have ser: "writePlistToString demo_env = demo_writePlistToString" by (simp add: demo_env_def)
  let ?rm = "Plist_new demo_env demo_world ''manifests'' ''newdir/site'' (Some ''alice'') (Some [])"
  let ?rp = "Plist_new demo_env demo_world ''pkgsinfo'' ''foo/bar.plist'' (Some ''alice'') (Some [])"
  have M1: "?rm = Plist_new demo_env demo_world ''manifests'' ''newdir/site'' (Some ''alice'') None"
    by (rule T [THEN conjunct1])
  have P1: "?rp = Plist_new demo_env demo_world ''pkgsinfo'' ''foo/bar.plist'' (Some ''alice'') None"
    by (rule T [THEN conjunct1])
  have M3: "demo_writePlistToString demo_manifest \<noteq> demo_writePlistToString []" by code_simp
  have P3: "demo_writePlistToString demo_pkginfo \<noteq> demo_writePlistToString []" by code_simp
  have M: "fst ?rm = Inr (demo_writePlistToString demo_manifest)
           \<and> (\<exists>c. namei (fs (snd ?rm)) (filepath_of demo_env ''manifests'' ''newdir/site'') = Some c
                  \<and> lookup (fs (snd ?rm)) c = Some (File (demo_writePlistToString demo_manifest)))"
  proof -
    let ?fp = "filepath_of demo_env ''manifests'' ''newdir/site''"
    let ?m = "os_makedirs demo_env demo_world (os_path_dirname ?fp)"
    let ?c = "[''repo'', ''manifests'', ''newdir'', ''site'']"
    have a: "\<not> os_path_exists (fs demo_world) ?fp" by code_simp
    have b: "\<not> os_path_exists (fs demo_world) (os_path_dirname ?fp)" by code_simp
    have c: "fst ?m = Inr ()" by code_simp
    then have c': "?m = (Inr (), snd ?m)" by (simp add: prod_eq_iff)
    from b c' have s: "(if os_path_exists (fs demo_world) (os_path_dirname ?fp)
             then (Inr (), demo_world) else ?m) = (Inr (), snd ?m)" by simp
    have n: "namei (fs (snd ?m)) ?fp = Some ?c" by code_simp
    have nd: "\<not> is_dir (fs (snd ?m)) ?c" by code_simp
    have pl: "default_plist ''manifests'' = Some demo_manifest"
      by (simp add: default_plist_manifests demo_manifest_def)
    have e: "encode_utf8 (writePlistToString demo_env demo_manifest)
               = Inr (writePlistToString demo_env demo_manifest)" by code_simp
    from T [where E = demo_env and w = demo_world and kind = "''manifests''"
          and pathname = "''newdir/site''" and user = "Some ''alice''" and ?w1.0 = "snd ?m"
          and c = ?c and plist = demo_manifest,
          THEN conjunct2, THEN conjunct2, THEN conjunct1, rule_format,
          OF conjI [OF a conjI [OF s conjI [OF n conjI [OF nd conjI [OF pl conjI [OF e
             conjI [OF nf conjI [OF nf nf]]]]]]]]]
    obtain w2 where
      r: "?rm = (Inr (writePlistToString demo_env demo_manifest), w2)"
      and f: "\<exists>c2. namei (fs w2) ?fp = Some c2
                \<and> lookup (fs w2) c2 = Some (File (writePlistToString demo_env demo_manifest))"
      by blast
    from r f show ?thesis by (simp add: ser)
  qed
  have P: "fst ?rp = Inr (demo_writePlistToString demo_pkginfo)
           \<and> (\<exists>c. namei (fs (snd ?rp)) (filepath_of demo_env ''pkgsinfo'' ''foo/bar.plist'') = Some c
                  \<and> lookup (fs (snd ?rp)) c = Some (File (demo_writePlistToString demo_pkginfo)))"
  proof -
    let ?fp = "filepath_of demo_env ''pkgsinfo'' ''foo/bar.plist''"
    let ?m = "os_makedirs demo_env demo_world (os_path_dirname ?fp)"
    let ?c = "[''repo'', ''pkgsinfo'', ''foo'', ''bar.plist'']"
    have a: "\<not> os_path_exists (fs demo_world) ?fp" by code_simp
    have b: "\<not> os_path_exists (fs demo_world) (os_path_dirname ?fp)" by code_simp
    have c: "fst ?m = Inr ()" by code_simp
    then have c': "?m = (Inr (), snd ?m)" by (simp add: prod_eq_iff)
    from b c' have s: "(if os_path_exists (fs demo_world) (os_path_dirname ?fp)
             then (Inr (), demo_world) else ?m) = (Inr (), snd ?m)" by simp
    have n: "namei (fs (snd ?m)) ?fp = Some ?c" by code_simp
    have nd: "\<not> is_dir (fs (snd ?m)) ?c" by code_simp
    have pl: "default_plist ''pkgsinfo'' = Some demo_pkginfo"
      by (simp add: default_plist_pkgsinfo demo_pkginfo_def)
    have e: "encode_utf8 (writePlistToString demo_env demo_pkginfo)
               = Inr (writePlistToString demo_env demo_pkginfo)" by code_simp
    from T [where E = demo_env and w = demo_world and kind = "''pkgsinfo''"
          and pathname = "''foo/bar.plist''" and user = "Some ''alice''" and ?w1.0 = "snd ?m"
          and c = ?c and plist = demo_pkginfo,
          THEN conjunct2, THEN conjunct2, THEN conjunct1, rule_format,
          OF conjI [OF a conjI [OF s conjI [OF n conjI [OF nd conjI [OF pl conjI [OF e
             conjI [OF nf conjI [OF nf nf]]]]]]]]]
    obtain w2 where
      r: "?rp = (Inr (writePlistToString demo_env demo_pkginfo), w2)"
      and f: "\<exists>c2. namei (fs w2) ?fp = Some c2
                \<and> lookup (fs w2) c2 = Some (File (writePlistToString demo_env demo_pkginfo))"
      by blast
    from r f show ?thesis by (simp add: ser)
  qed
  show ?thesis
    by (intro conjI M1 P1 M3 P3 M [THEN conjunct1] M [THEN conjunct2]
          P [THEN conjunct1] P [THEN conjunct2])
qed

section \<open>Facts about the walk\<close>

lemma remove_skipdirs_set:
  assumes "distinct ds"
  shows "set (remove_skipdirs ds) = set ds - set skipdirs"
proof -
  have r: "\<And>x xs. (if x \<in> set xs then remove1 x xs else xs) = remove1 x (xs :: string list)"
    by (simp add: remove1_idem)
  show ?thesis
    using assms
    by (simp add: remove_skipdirs_def skipdirs_def r set_remove1_eq distinct_remove1) blast
qed

lemma wf_node_child:
  "wf_node (Dir es) \<Longrightarrow> map_of es s = Some ch \<Longrightarrow> valid_name s \<and> wf_node ch"
  by (auto simp: list_all_iff dest!: map_of_SomeD)

lemma wf_lookup: "wf_node t \<Longrightarrow> lookup t ds = Some n \<Longrightarrow> wf_node n"
proof (induction t ds rule: lookup.induct)
  case (1 t)
  then show ?case by simp
next
  case (2 d s ss)
  then show ?case by simp
next
  case (3 es s ss)
  from "3.prems"(2) obtain ch where ch: "map_of es s = Some ch" and l: "lookup ch ss = Some n"
    by (auto split: option.splits)
  from wf_node_child [OF "3.prems"(1) ch] have "wf_node ch" by simp
  from "3.IH" [OF ch this l] show ?case .
qed

lemma distinct_dirs_of: "distinct (map fst es) \<Longrightarrow> distinct (dirs_of es)"
  by (simp add: dirs_of_def distinct_map_filter)

lemma dirs_of_subset: "s \<in> set (dirs_of es) \<Longrightarrow> s \<in> fst ` set es"
  by (auto simp: dirs_of_def)

lemma os_walk_entries:
  "wf_node t \<Longrightarrow> e \<in> set (os_walk remove_skipdirs dirpath t) \<Longrightarrow>
     \<exists>ds es. lookup t ds = Some (Dir es)
        \<and> e = (foldl os_path_join dirpath ds, dirs_of es, nondirs_of es)
        \<and> list_all valid_name ds \<and> set ds \<inter> set skipdirs = {}"
proof (induction remove_skipdirs dirpath t arbitrary: e rule: os_walk.induct)
  case (1 dirpath d)
  then show ?case by simp
next
  case (2 dirpath es)
  from "2.prems"(2) consider
      (here) "e = (dirpath, dirs_of es, nondirs_of es)"
    | (below) name ch where "name \<in> set (remove_skipdirs (dirs_of es))"
        "map_of es name = Some ch"
        "e \<in> set (os_walk remove_skipdirs (os_path_join dirpath name) ch)"
    by (auto split: option.splits) metis
  then show ?case
  proof cases
    case here
    have "lookup (Dir es) [] = Some (Dir es)" by simp
    with here show ?thesis
      by (intro exI [of _ "[]"] exI [of _ es]) simp
  next
    case below
    from "2.prems"(1) have dist: "distinct (dirs_of es)"
      by (simp add: distinct_dirs_of)
    from below(1) have ns: "name \<notin> set skipdirs"
      by (simp add: remove_skipdirs_set [OF dist])
    from wf_node_child [OF "2.prems"(1) below(2)] have v: "valid_name name" and w: "wf_node ch"
      by simp_all
    from "2.hyps" [OF below(1) below(2) w below(3)] obtain ds es' where
      l: "lookup ch ds = Some (Dir es')"
      and e: "e = (foldl os_path_join (os_path_join dirpath name) ds, dirs_of es', nondirs_of es')"
      and vs: "list_all valid_name ds" and sk: "set ds \<inter> set skipdirs = {}"
      by blast
    have "lookup (Dir es) (name # ds) = Some (Dir es')" using below(2) l by simp
    moreover have "e = (foldl os_path_join dirpath (name # ds), dirs_of es', nondirs_of es')"
      using e by simp
    moreover have "list_all valid_name (name # ds)" using v vs by simp
    moreover have "set (name # ds) \<inter> set skipdirs = {}" using ns sk by simp
    ultimately show ?thesis by blast
  qed
qed

lemma foldl_join_names:
  "p \<noteq> [] \<Longrightarrow> last p \<noteq> CHR ''/'' \<Longrightarrow> list_all valid_name ds \<Longrightarrow>
     foldl os_path_join p ds = p @ concat (map (\<lambda>d. CHR ''/'' # d) ds)"
proof (induction ds arbitrary: p)
  case Nil
  show ?case by simp
next
  case (Cons d ds)
  from Cons.prems(3) have v: "d \<noteq> []" "hd d \<noteq> CHR ''/''" "last d \<noteq> CHR ''/''"
    by (simp_all add: valid_name_simps)
  have j: "os_path_join p d = p @ CHR ''/'' # d"
    using Cons.prems(1,2) v by (simp add: os_path_join_rel)
  have "foldl os_path_join (p @ CHR ''/'' # d) ds =
          (p @ CHR ''/'' # d) @ concat (map (\<lambda>d. CHR ''/'' # d) ds)"
    using Cons.prems(3) v by (intro Cons.IH) simp_all
  then show ?case by (simp add: j)
qed

lemma lstrip_sep:
  "s \<noteq> [] \<Longrightarrow> hd s \<noteq> CHR ''/'' \<Longrightarrow> lstrip CHR ''/'' s = s"
  "s \<noteq> [] \<Longrightarrow> hd s \<noteq> CHR ''/'' \<Longrightarrow> lstrip CHR ''/'' (CHR ''/'' # s) = s"
  by (cases s; simp add: lstrip_def)+

lemma listed_name:
  assumes kd: "kd \<noteq> []" and vs: "list_all valid_name ds" and vf: "valid_name f"
  shows "lstrip CHR ''/''
           (os_path_join (drop (length kd) (foldl os_path_join kd ds)) f)
         = joinp (ds @ [f])"
proof (cases ds)
  case Nil
  from vf have "f \<noteq> []" "hd f \<noteq> CHR ''/''" by (simp_all add: valid_name_simps)
  then show ?thesis by (simp add: Nil os_path_join_rel lstrip_sep)
next
  case (Cons d ds')
  from vs Cons have vd: "d \<noteq> []" "hd d \<noteq> CHR ''/''" "last d \<noteq> CHR ''/''"
    and vs': "list_all valid_name ds'"
    by (simp_all add: valid_name_simps)
  from vf have f: "f \<noteq> []" "hd f \<noteq> CHR ''/''" by (simp_all add: valid_name_simps)
  define sep where "sep = (if last kd = CHR ''/'' then [] else ''/'')"
  have j: "os_path_join kd d = kd @ sep @ d"
    using kd vd by (simp add: os_path_join_rel sep_def)
  have "foldl os_path_join (kd @ sep @ d) ds' =
          (kd @ sep @ d) @ concat (map (\<lambda>d. CHR ''/'' # d) ds')"
    using vd vs' by (intro foldl_join_names) simp_all
  then have "foldl os_path_join kd ds = kd @ sep @ joinp ds"
    by (simp add: Cons j joinp_Cons)
  then have sub: "drop (length kd) (foldl os_path_join kd ds) = sep @ joinp ds" by simp
  have ne: "ds \<noteq> []" using Cons by simp
  from joinp_not_Nil [OF ne vs] last_joinp [OF ne vs]
  have "sep @ joinp ds \<noteq> []" "last (sep @ joinp ds) \<noteq> CHR ''/''" by simp_all
  then have "os_path_join (sep @ joinp ds) f = (sep @ joinp ds) @ CHR ''/'' # f"
    using f by (simp add: os_path_join_rel)
  then have "os_path_join (sep @ joinp ds) f = sep @ joinp (ds @ [f])"
    by (simp add: joinp_snoc [OF ne])
  moreover have "ds @ [f] \<noteq> []" "list_all valid_name (ds @ [f])" using vs vf by simp_all
  from joinp_not_Nil [OF this] hd_joinp [OF this]
  have "lstrip CHR ''/'' (sep @ joinp (ds @ [f])) = joinp (ds @ [f])"
    by (simp add: sep_def lstrip_sep)
  ultimately show ?thesis by (simp add: sub)
qed

section \<open>Facts about the listing and the removal\<close>

lemma Plist_list_entries:
  assumes wf: "wf_node (fs w)" and x: "x \<in> set (Plist_list E w kind)"
  shows "\<exists>kc segs b. namei (fs w) (os_path_join (REPO_DIR E) kind) = Some kc
           \<and> is_dir (fs w) kc \<and> segs \<noteq> [] \<and> list_all valid_name segs
           \<and> lookup (fs w) (kc @ segs) = Some (File b) \<and> x = joinp segs
           \<and> \<not> startswith (last segs) ''.''
           \<and> set (butlast segs) \<inter> set skipdirs = {}"
proof -
  let ?kd = "os_path_join (REPO_DIR E) kind"
  from x obtain dp dns fns f where
    e: "(dp, dns, fns) \<in> set (os_walk_path w remove_skipdirs ?kd)"
    and f: "f \<in> set fns" and nd: "\<not> startswith f ''.''"
    and xf: "x = lstrip CHR ''/'' (os_path_join (drop (length ?kd) dp) f)"
    by (auto simp: Plist_list_def Let_def)
  from e obtain kc t where n: "namei (fs w) ?kd = Some kc"
    and lt: "lookup (fs w) kc = Some t"
    and et: "(dp, dns, fns) \<in> set (os_walk remove_skipdirs ?kd t)"
    by (auto simp: os_walk_path_def split: option.splits) metis
  from n have kd: "?kd \<noteq> []" by (auto simp: namei_def split: if_splits)
  from wf_lookup [OF wf lt] have wt: "wf_node t" .
  from os_walk_entries [OF wt et] obtain ds es where
    l: "lookup t ds = Some (Dir es)"
    and dp: "dp = foldl os_path_join ?kd ds" and fns: "fns = nondirs_of es"
    and vs: "list_all valid_name ds" and sk: "set ds \<inter> set skipdirs = {}"
    by auto
  from wf_lookup [OF wt l] have we: "wf_node (Dir es)" .
  from f fns obtain ch where "(f, ch) \<in> set es" and nd': "\<not> is_Dir ch"
    by (auto simp: nondirs_of_def)
  then obtain b where chb: "ch = File b" by (cases ch) simp_all
  from \<open>(f, ch) \<in> set es\<close> we have mf: "map_of es f = Some ch" by simp
  from wf_node_child [OF we mf] have vf: "valid_name f" by simp
  have "x = joinp (ds @ [f])"
    unfolding xf dp by (rule listed_name [OF kd vs vf])
  moreover have "lookup (fs w) (kc @ ds @ [f]) = Some ch"
    using lt l mf by (simp add: lookup_append)
  moreover have "is_dir (fs w) kc"
  proof -
    from l have "is_Dir t" by (cases ds) (auto dest: lookup_Cons_is_Dir)
    with lt show ?thesis by (cases t) (simp_all add: is_dir_def)
  qed
  moreover have "list_all valid_name (ds @ [f])" using vs vf by simp
  ultimately show ?thesis
    using n nd sk
    by (intro exI [of _ kc] exI [of _ "ds @ [f]"] exI [of _ b]) (simp add: chb)
qed

lemma set_update_subset: "set (AList.update k v es) \<subseteq> insert (k, v) (set es)"
  by (induction es) auto

lemma wf_remove: "wf_node t \<Longrightarrow> wf_node (remove t c)"
proof (induction t c rule: remove.induct)
  case (1 t)
  then show ?case by simp
next
  case (2 d s ss)
  then show ?case by simp
next
  case (3 es s ss)
  show ?case
  proof (cases "ss = []")
    case True
    have "distinct (map fst (AList.delete s es))"
      using "3.prems" by (simp add: distinct_delete)
    moreover have "set (AList.delete s es) \<subseteq> set es"
      by (auto simp: AList.delete_eq)
    ultimately show ?thesis
      using "3.prems" True by (auto simp: list_all_iff)
  next
    case False
    show ?thesis
    proof (cases "map_of es s")
      case None
      with False "3.prems" show ?thesis by simp
    next
      case (Some ch)
      from wf_node_child [OF "3.prems" Some] have v: "valid_name s" and w: "wf_node ch"
        by simp_all
      from "3.IH" [OF False Some w] have w': "wf_node (remove ch ss)" .
      have "list_all (\<lambda>e. valid_name (fst e) \<and> wf_node (snd e))
              (AList.update s (remove ch ss) es)"
        using "3.prems" v w' set_update_subset [of s "remove ch ss" es]
        by (auto simp: list_all_iff)
      with "3.prems" False Some show ?thesis by (simp add: distinct_update)
    qed
  qed
qed

lemma Plist_delete_Inr:
  assumes "Plist_delete E w kind pathname user = (Inr (), w')"
  shows "\<exists>w1. os_unlink E w (filepath_of E kind pathname) = (Inr (), w1) \<and> fs w' = fs w1"
proof -
  let ?fp = "filepath_of E kind pathname"
  from assms have t: "delete_try E w kind pathname ?fp user = (Inr (), w')"
    by (auto simp: Plist_delete_def Let_def split: if_splits prod.splits sum.splits)
  then obtain w1 where u: "os_unlink E w ?fp = (Inr (), w1)"
    by (auto simp: delete_try_def split: prod.splits sum.splits)
  let ?w2 = "LOGGER_info (''Deleted '' @ kind @ ''/'' @ pathname) w1"
  from t u have
    "(if truthy user \<and> truthy (GIT E) then MunkiGit_delete_file_at_path E ?w2 ?fp user
      else (Inr (), ?w2)) = (Inr (), w')"
    by (simp add: delete_try_def Let_def split del: if_split cong del: if_weak_cong)
  then have "fs w' = fs ?w2" by (rule fs_delete_if)
  with u show ?thesis by simp
qed

lemma wf_lookup_names: "wf_node t \<Longrightarrow> lookup t ds = Some n \<Longrightarrow> list_all valid_name ds"
proof (induction t ds rule: lookup.induct)
  case (1 t)
  then show ?case by simp
next
  case (2 d s ss)
  then show ?case by simp
next
  case (3 es s ss)
  from "3.prems"(2) obtain ch where ch: "map_of es s = Some ch" and l: "lookup ch ss = Some n"
    by (auto split: option.splits)
  from wf_node_child [OF "3.prems"(1) ch] have v: "valid_name s" and w: "wf_node ch"
    by simp_all
  from "3.IH" [OF ch w l] v show ?case by simp
qed

lemma joinp_split_on: "joinp (split_on CHR ''/'' x) = x"
  by (induction x) (auto simp: joinp_Cons split: list.splits)

lemma dirs_of_member:
  "distinct (map fst es) \<Longrightarrow> map_of es s = Some (Dir es') \<Longrightarrow> s \<in> set (dirs_of es)"
  by (force simp: dirs_of_def dest: map_of_SomeD)

lemma nondirs_of_member:
  "map_of es f = Some (File b) \<Longrightarrow> f \<in> set (nondirs_of es)"
  by (force simp: nondirs_of_def dest: map_of_SomeD)

lemma os_walk_complete:
  "wf_node t \<Longrightarrow> lookup t ds = Some (Dir es) \<Longrightarrow> set ds \<inter> set skipdirs = {} \<Longrightarrow>
     (foldl os_path_join dirpath ds, dirs_of es, nondirs_of es)
       \<in> set (os_walk remove_skipdirs dirpath t)"
proof (induction ds arbitrary: t dirpath)
  case Nil
  then show ?case by simp
next
  case (Cons s ss)
  from Cons.prems(2) obtain es0 where t: "t = Dir es0"
    by (cases t) simp_all
  from Cons.prems(2) t obtain ch where ch: "map_of es0 s = Some ch"
    and l: "lookup ch ss = Some (Dir es)"
    by (auto split: option.splits)
  from l have "is_Dir ch" by (cases ss) (auto dest: lookup_Cons_is_Dir)
  then obtain es1 where c1: "ch = Dir es1" by (cases ch) simp_all
  from Cons.prems(1) t have dist: "distinct (map fst es0)" by simp
  from wf_node_child [OF Cons.prems(1) [unfolded t] ch] have w: "wf_node ch" by simp
  from dirs_of_member [OF dist ch [unfolded c1]] have "s \<in> set (dirs_of es0)" .
  moreover from Cons.prems(3) have "s \<notin> set skipdirs" by simp
  ultimately have m: "s \<in> set (remove_skipdirs (dirs_of es0))"
    by (simp add: remove_skipdirs_set [OF distinct_dirs_of [OF dist]])
  from Cons.prems(3) have sk: "set ss \<inter> set skipdirs = {}" by auto
  have "(foldl os_path_join (os_path_join dirpath s) ss, dirs_of es, nondirs_of es)
          \<in> set (os_walk remove_skipdirs (os_path_join dirpath s) ch)"
    by (rule Cons.IH [OF w l sk])
  with m ch show ?case
    unfolding t by (auto intro!: bexI [of _ s])
qed

lemma concat_map_member:
  "e \<in> set xs \<Longrightarrow> y \<in> set (g e) \<Longrightarrow> y \<in> set (concat (map g xs))"
  by auto

lemma Plist_list_complete:
  assumes wf: "wf_node (fs w)"
    and n: "namei (fs w) (os_path_join (REPO_DIR E) kind) = Some kc"
    and l: "lookup (fs w) (kc @ segs) = Some (File b)"
    and ne: "segs \<noteq> []"
    and nd: "\<not> startswith (last segs) ''.''"
    and sk: "set (butlast segs) \<inter> set skipdirs = {}"
  shows "joinp segs \<in> set (Plist_list E w kind)"
proof -
  let ?kd = "os_path_join (REPO_DIR E) kind"
  from n have kd: "?kd \<noteq> []" by (auto simp: namei_def split: if_splits)
  from l obtain t where lt: "lookup (fs w) kc = Some t" and ls: "lookup t segs = Some (File b)"
    by (auto simp: lookup_append split: option.splits)
  from wf_lookup [OF wf lt] have wt: "wf_node t" .
  define ds where "ds = butlast segs"
  define f where "f = last segs"
  from ne have segs: "segs = ds @ [f]" by (simp add: ds_def f_def)
  from ls obtain d where ld: "lookup t ds = Some d" and lf: "lookup d [f] = Some (File b)"
    by (auto simp: segs lookup_append split: option.splits)
  from lf obtain es where d: "d = Dir es" and mf: "map_of es f = Some (File b)"
    by (cases d) (auto split: option.splits)
  from wf_lookup_names [OF wt ls] have vs: "list_all valid_name ds" and vf: "valid_name f"
    by (simp_all add: segs)
  from sk have sk': "set ds \<inter> set skipdirs = {}" by (simp add: ds_def)
  have "(foldl os_path_join ?kd ds, dirs_of es, nondirs_of es)
          \<in> set (os_walk remove_skipdirs ?kd t)"
    by (rule os_walk_complete [OF wt ld [unfolded d] sk'])
  then have e: "(foldl os_path_join ?kd ds, dirs_of es, nondirs_of es)
          \<in> set (os_walk_path w remove_skipdirs ?kd)"
    by (simp add: os_walk_path_def n lt)
  have fm: "f \<in> set (filter (\<lambda>name. \<not> startswith name ''.'') (nondirs_of es))"
    using nondirs_of_member [OF mf] nd by (simp add: f_def)
  have x: "lstrip CHR ''/''
             (os_path_join (drop (length ?kd) (foldl os_path_join ?kd ds)) f) = joinp segs"
    unfolding segs by (rule listed_name [OF kd vs vf])
  have y: "joinp segs \<in> set (map (\<lambda>name. lstrip CHR ''/''
            (os_path_join (drop (length ?kd) (foldl os_path_join ?kd ds)) name))
          (filter (\<lambda>name. \<not> startswith name ''.'') (nondirs_of es)))"
    using fm x by (metis (no_types, lifting) image_eqI set_map)
  show ?thesis
    unfolding Plist_list_def Let_def
    by (rule concat_map_member [OF e]) (simp only: prod.case y)
qed

section \<open>What the listing leaves out\<close>




section \<open>Delete, then read and list\<close>

text \<open>
  C4. After a successful \<open>delete(kind, pathname, user)\<close>, \<open>read(kind, pathname)\<close> fails
  with \<open>PlistDoesNotExistError\<close>, and on a well-formed tree \<open>list(kind)\<close> does not
  contain \<open>pathname\<close>; \<open>delete\<close> itself fails with \<open>PlistDoesNotExistError\<close>, and changes
  nothing, when the file is not there.
\<close>

theorem delete_then_read_and_list:
  "(Plist_delete E w kind pathname user = (Inr (), w') \<longrightarrow>
      Plist_read E w' kind pathname = (Inl (PlistDoesNotExistError None), w')
      \<and> (wf_node (fs w) \<longrightarrow> pathname \<notin> set (Plist_list E w' kind)))
   \<and> (\<not> os_path_exists (fs w) (filepath_of E kind pathname) \<longrightarrow>
      Plist_delete E w kind pathname user =
        (Inl (PlistDoesNotExistError (Some (kind @ ''/'' @ pathname @ '' does not exist''))), w))"
proof (intro conjI impI)
  assume d: "Plist_delete E w kind pathname user = (Inr (), w')"
  from Plist_delete_Inr [OF d] obtain w1 where
    u: "os_unlink E w (filepath_of E kind pathname) = (Inr (), w1)" and f: "fs w' = fs w1"
    by blast
  from unlinked_file(2) [OF u] f
  have ne: "\<not> os_path_exists (fs w') (filepath_of E kind pathname)" by simp
  then show "Plist_read E w' kind pathname = (Inl (PlistDoesNotExistError None), w')"
    by (simp add: Plist_read_def Let_def)
  assume wf: "wf_node (fs w)"
  from os_unlink_Inr [OF u] obtain c where "fs w1 = remove (fs w) c" by blast
  with wf f have wf': "wf_node (fs w')" by (simp add: wf_remove)
  show "pathname \<notin> set (Plist_list E w' kind)"
  proof
    assume "pathname \<in> set (Plist_list E w' kind)"
    from Plist_list_entries [OF wf' this] obtain kc segs m where
      n: "namei (fs w') (os_path_join (REPO_DIR E) kind) = Some kc"
      and dir: "is_dir (fs w') kc" and sn: "segs \<noteq> []" and v: "list_all valid_name segs"
      and l: "lookup (fs w') (kc @ segs) = Some m" and p: "pathname = joinp segs"
      by blast
    from exists_under [OF n dir v sn l] p
    have "os_path_exists (fs w') (filepath_of E kind pathname)" by simp
    with ne show False by simp
  qed
next
  assume "\<not> os_path_exists (fs w) (filepath_of E kind pathname)"
  then show "Plist_delete E w kind pathname user =
        (Inl (PlistDoesNotExistError (Some (kind @ ''/'' @ pathname @ '' does not exist''))), w)"
    by (simp add: Plist_delete_def Let_def)
qed

theorem delete_then_read_and_list_witness:
  "fst (Plist_delete demo_env demo_world ''manifests'' ''sub/m1'' (Some ''bob'')) = Inr ()
   \<and> wf_node (fs demo_world)
   \<and> ''sub/m1'' \<in> set (Plist_list demo_env demo_world ''manifests'')
   \<and> Plist_read demo_env
        (snd (Plist_delete demo_env demo_world ''manifests'' ''sub/m1'' (Some ''bob'')))
        ''manifests'' ''sub/m1''
      = (Inl (PlistDoesNotExistError None),
         snd (Plist_delete demo_env demo_world ''manifests'' ''sub/m1'' (Some ''bob'')))
   \<and> ''sub/m1'' \<notin> set (Plist_list demo_env
        (snd (Plist_delete demo_env demo_world ''manifests'' ''sub/m1'' (Some ''bob'')))
        ''manifests'')
   \<and> \<not> os_path_exists (fs demo_world) (filepath_of demo_env ''pkgsinfo'' ''missing.plist'')
   \<and> Plist_delete demo_env demo_world ''pkgsinfo'' ''missing.plist'' (Some ''bob'') =
       (Inl (PlistDoesNotExistError
               (Some (''pkgsinfo'' @ ''/'' @ ''missing.plist'' @ '' does not exist''))),
        demo_world)"
proof -
  let ?r = "Plist_delete demo_env demo_world ''manifests'' ''sub/m1'' (Some ''bob'')"
  have a: "fst ?r = Inr ()" by code_simp
  then have a': "?r = (Inr (), snd ?r)" by (simp add: prod_eq_iff)
  have b: "wf_node (fs demo_world)" by code_simp
  have c: "''sub/m1'' \<in> set (Plist_list demo_env demo_world ''manifests'')" by code_simp
  have d: "\<not> os_path_exists (fs demo_world) (filepath_of demo_env ''pkgsinfo'' ''missing.plist'')"
    by code_simp
  note T = delete_then_read_and_list
  from T [where E = demo_env and w = demo_world and kind = "''manifests''"
        and pathname = "''sub/m1''" and user = "Some ''bob''" and w' = "snd ?r",
        THEN conjunct1, rule_format, OF a'] b
  have e: "Plist_read demo_env (snd ?r) ''manifests'' ''sub/m1''
             = (Inl (PlistDoesNotExistError None), snd ?r)"
    and f: "''sub/m1'' \<notin> set (Plist_list demo_env (snd ?r) ''manifests'')"
    by simp_all
  from T [where E = demo_env and w = demo_world and kind = "''pkgsinfo''"
        and pathname = "''missing.plist''" and user = "Some ''bob''",
        THEN conjunct2, rule_format, OF d]
  have g: "Plist_delete demo_env demo_world ''pkgsinfo'' ''missing.plist'' (Some ''bob'') =
       (Inl (PlistDoesNotExistError
               (Some (''pkgsinfo'' @ ''/'' @ ''missing.plist'' @ '' does not exist''))),
        demo_world)" .
  from a b c e f d g show ?thesis by (intro conjI)
qed

end
